theory Spec2Isabelle
  imports Main "HOL-Library.Sublist" "HOL-Library.AList"
begin

section \<open>JavaScript values and strings\<close>

text \<open>
  The backend is JavaScript glue around third-party libraries (LangChain, Chroma, axios,
  Node's \<^verbatim>\<open>path\<close> and \<^verbatim>\<open>fs\<close>). The functions of the repository are
  embedded below as HOL functions; every call that leaves the repository is a field of a
  record of collaborators, so that a statement quantified over that record holds for
  whatever the library does, and a concrete record plays the part of a test double.

  Values whose JavaScript type matters (metadata fields, the model's answer) are of type
  \<open>jsval\<close>; numbers are integers here.
\<close>

datatype jsval = JUndefined | JNull | JBool bool | JNum int | JStr string

text \<open>Truthiness, and \<^verbatim>\<open>a || b\<close>.\<close>

fun truthy :: "jsval \<Rightarrow> bool" where
  "truthy JUndefined = False"
| "truthy JNull = False"
| "truthy (JBool b) = b"
| "truthy (JNum n) = (n \<noteq> 0)"
| "truthy (JStr s) = (s \<noteq> [])"

definition js_or :: "jsval \<Rightarrow> jsval \<Rightarrow> jsval" where
  "js_or a b = (if truthy a then a else b)"

text \<open>
  \<^verbatim>\<open>String.prototype.toLowerCase\<close> on the ASCII letters (the phrase lists of the
  source are ASCII), \<^verbatim>\<open>String.prototype.includes\<close> and \<^verbatim>\<open>Array.prototype.join\<close>.
\<close>

definition toLowerChar :: "char \<Rightarrow> char" where
  "toLowerChar c =
     (case map_of (zip ''ABCDEFGHIJKLMNOPQRSTUVWXYZ'' ''abcdefghijklmnopqrstuvwxyz'') c of
        Some l \<Rightarrow> l
      | None \<Rightarrow> c)"

definition toLowerCase :: "string \<Rightarrow> string" where
  "toLowerCase s = map toLowerChar s"

fun js_includes :: "string \<Rightarrow> string \<Rightarrow> bool" where
  "js_includes [] p = (p = [])"
| "js_includes (c # cs) p = (prefix p (c # cs) \<or> js_includes cs p)"

fun join :: "string \<Rightarrow> string list \<Rightarrow> string" where
  "join sep [] = []"
| "join sep [s] = s"
| "join sep (s # t # ss) = s @ sep @ join sep (t # ss)"

text \<open>The decimal digits of a number, as a template literal prints \<^verbatim>\<open>Date.now()\<close>.\<close>

fun decimal :: "nat \<Rightarrow> string" where
  "decimal n =
     (if n < 10 then [''0123456789'' ! n]
      else decimal (n div 10) @ [''0123456789'' ! (n mod 10)])"

declare decimal.simps [simp del]

text \<open>
  A thrown \<^verbatim>\<open>Error\<close>: its message and, for the errors of Node and axios, its
  \<^verbatim>\<open>code\<close>.
\<close>

record js_error =
  err_message :: string
  err_code :: "string option"

section \<open>Documents, metadata and sources\<close>

text \<open>
  A LangChain document: \<^verbatim>\<open>{ pageContent, metadata }\<close>. The metadata object is an
  association list in property order; reading an absent property gives \<^verbatim>\<open>undefined\<close>,
  and \<^verbatim>\<open>{ ...metadata, k: v }\<close> is \<open>AList.update\<close>.
\<close>

type_synonym metadata = "(string \<times> jsval) list"

record document =
  pageContent :: string
  metadata :: metadata

definition md_get :: "metadata \<Rightarrow> string \<Rightarrow> jsval" where
  "md_get m k = (case map_of m k of None \<Rightarrow> JUndefined | Some v \<Rightarrow> v)"

record source_ref =
  source :: jsval
  page :: jsval
  chunk :: jsval

section \<open>The LangChain service (\<^verbatim>\<open>LangChainService\<close>)\<close>

text \<open>
  The input of the chain, \<^verbatim>\<open>{ question, chatHistory }\<close>. The first stage of the chain
  maps it to \<^verbatim>\<open>{ question: <the whole input>, chatHistory: "" }\<close>
  (\<^verbatim>\<open>RunnablePassthrough\<close> passes the input on as it is, and the \<^verbatim>\<open>chatHistory\<close>
  branch is the constant function \<^verbatim>\<open>() => ""\<close>).
\<close>

record chain_input =
  ci_question :: string
  ci_chatHistory :: string

record stage1 =
  s1_question :: chain_input
  s1_chatHistory :: string

text \<open>
  The collaborators of the service:
  \<^item> \<open>initialize_throws\<close>: whether \<^verbatim>\<open>initialize()\<close> (constructing the embeddings, the
    vector store client, the retriever and the chain) throws;
  \<^item> \<open>questionGenerator\<close>: the stage
    \<^verbatim>\<open>questionGeneratorTemplate.pipe(new StringOutputParser())\<close>, the condensation
    prompt template followed by the string parser, applied to the output of stage 1;
  \<^item> \<open>getRelevantDocuments\<close>: \<^verbatim>\<open>this.retriever.getRelevantDocuments\<close>, a function of
    the query string (the vector store does not change during one call);
  \<^item> \<open>formatDocumentsAsString\<close>, \<open>qaTemplate\<close> (question and context to prompt);
  \<^item> \<open>axios_post\<close>: the POST to the completion endpoint of the inference server, with
    its 30 second timeout; \<open>Inr\<close> carries \<^verbatim>\<open>response.data.content\<close>.
\<close>

record collaborators =
  initialize_throws :: "js_error option"
  questionGenerator :: "stage1 \<Rightarrow> js_error + string"
  getRelevantDocuments :: "string \<Rightarrow> js_error + document list"
  formatDocumentsAsString :: "document list \<Rightarrow> string"
  qaTemplate :: "string \<Rightarrow> string \<Rightarrow> string"
  axios_post :: "string \<Rightarrow> js_error + jsval"

text \<open>
  The calls a test double records, each with what it was given; a retrieval also with what
  it returned.
\<close>

datatype call =
  QuestionGeneratorCall stage1
| GetRelevantDocumentsCall string "js_error + document list"
| AxiosPostCall string

definition apology :: string where
  "apology = ''I'm sorry, I encountered an error while processing your request.''"

text \<open>\<^verbatim>\<open>retrieveDocuments\<close>: a failed retrieval is logged and gives the empty context.\<close>

definition retrieveDocuments :: "collaborators \<Rightarrow> string \<Rightarrow> string" where
  "retrieveDocuments env query_str =
     (case getRelevantDocuments env query_str of
        Inr docs \<Rightarrow> formatDocumentsAsString env docs
      | Inl e \<Rightarrow> [])"

text \<open>\<^verbatim>\<open>callLlamaServer\<close>: a failed request is logged and gives the canned text.\<close>

definition callLlamaServer :: "collaborators \<Rightarrow> string \<Rightarrow> jsval" where
  "callLlamaServer env prompt =
     (case axios_post env prompt of
        Inr content \<Rightarrow> content
      | Inl e \<Rightarrow> JStr apology)"

text \<open>
  \<^verbatim>\<open>this.chain.invoke\<close>: the five stages of the \<^verbatim>\<open>RunnableSequence\<close>, in order,
  with no branch on the history. It returns the calls made and the response, or the error
  of the stage that threw.
\<close>

definition chain_invoke :: "collaborators \<Rightarrow> chain_input \<Rightarrow> call list \<times> (js_error + jsval)" where
  "chain_invoke env inp =
     (let st1 = \<lparr>s1_question = inp, s1_chatHistory = []\<rparr> in
      case questionGenerator env st1 of
        Inl e \<Rightarrow> ([QuestionGeneratorCall st1], Inl e)
      | Inr question \<Rightarrow>
          (let context = retrieveDocuments env question;
               prompt = qaTemplate env question context
           in ([QuestionGeneratorCall st1,
                GetRelevantDocumentsCall question (getRelevantDocuments env question),
                AxiosPostCall prompt],
               Inr (callLlamaServer env prompt))))"

text \<open>The service's own \<^verbatim>\<open>shouldEscalate(error)\<close>.\<close>

definition criticalErrors :: "string list" where
  "criticalErrors = [''ECONNREFUSED'', ''ETIMEDOUT'', ''no documents'']"

definition service_shouldEscalate :: "js_error \<Rightarrow> bool" where
  "service_shouldEscalate e =
     list_ex (\<lambda>errType.
        js_includes (err_message e) errType \<or>
        (case err_code e of
           None \<Rightarrow> False
         | Some c \<Rightarrow> c \<noteq> [] \<and> js_includes c errType))
      criticalErrors"

text \<open>
  The result of \<^verbatim>\<open>query\<close>: \<^verbatim>\<open>{ text, sources }\<close> from the try block,
  \<^verbatim>\<open>{ text, error, escalate }\<close> from the catch block; a field that is not set is
  \<open>None\<close>.
\<close>

record query_result =
  qr_text :: jsval
  qr_sources :: "source_ref list option"
  qr_error :: "string option"
  qr_escalate :: "bool option"

definition query_catch :: "js_error \<Rightarrow> query_result" where
  "query_catch e =
     \<lparr>qr_text = JStr apology, qr_sources = None, qr_error = Some (err_message e),
      qr_escalate = Some (service_shouldEscalate e)\<rparr>"

definition toSource :: "document \<Rightarrow> source_ref" where
  "toSource doc =
     \<lparr>source = md_get (metadata doc) ''source'',
      page = js_or (md_get (metadata doc) ''page'') JNull,
      chunk = js_or (md_get (metadata doc) ''chunk'') JNull\<rparr>"

text \<open>A message of the history, as far as \<^verbatim>\<open>query\<close> reads it: role and content.\<close>

datatype role = System | User | Assistant

fun role_str :: "role \<Rightarrow> string" where
  "role_str System = ''system''"
| "role_str User = ''user''"
| "role_str Assistant = ''assistant''"

fun js_toString :: "jsval \<Rightarrow> string" where
  "js_toString JUndefined = ''undefined''"
| "js_toString JNull = ''null''"
| "js_toString (JBool b) = (if b then ''true'' else ''false'')"
| "js_toString (JNum n) = (if n < 0 then ''-'' @ decimal (nat (- n)) else decimal (nat n))"
| "js_toString (JStr s) = s"

record chat_message =
  msg_role :: role
  content :: jsval
  sources :: "source_ref list option"
  timestamp :: string

definition formattedHistory :: "chat_message list \<Rightarrow> string" where
  "formattedHistory chatHistory =
     join [CHR 0x0A] (map (\<lambda>msg. role_str (msg_role msg) @ '': '' @ js_toString (content msg)) chatHistory)"

text \<open>
  \<^verbatim>\<open>query(query, chatHistory)\<close>. The state of the singleton is its
  \<^verbatim>\<open>initialized\<close> flag; the result is the calls made, the flag afterwards and the
  object returned. The whole body is inside \<^verbatim>\<open>try\<close>, and the catch block
  reads only the message and the code of the error, so nothing is thrown.
\<close>

definition query ::
  "collaborators \<Rightarrow> bool \<Rightarrow> string \<Rightarrow> chat_message list \<Rightarrow> call list \<times> bool \<times> query_result" where
  "query env initialized query_str chatHistory =
     (if \<not> initialized \<and> initialize_throws env \<noteq> None
      then ([], False, query_catch (the (initialize_throws env)))
      else
        (case chain_invoke env
                \<lparr>ci_question = query_str, ci_chatHistory = formattedHistory chatHistory\<rparr> of
           (calls, Inl e) \<Rightarrow> (calls, True, query_catch e)
         | (calls, Inr response) \<Rightarrow>
             (case getRelevantDocuments env query_str of
                Inl e \<Rightarrow> (calls @ [GetRelevantDocumentsCall query_str (Inl e)], True, query_catch e)
              | Inr docs \<Rightarrow>
                  (calls @ [GetRelevantDocumentsCall query_str (Inr docs)], True,
                   \<lparr>qr_text = response, qr_sources = Some (map toSource docs),
                    qr_error = None, qr_escalate = None\<rparr>))))"

section \<open>The chat controller\<close>

text \<open>
  The controller's \<^verbatim>\<open>shouldEscalate(text)\<close>: some indicator occurs in the text, both
  lowercased.
\<close>

definition lowConfidenceIndicators :: "string list" where
  "lowConfidenceIndicators =
     [''I don't know'', ''I'm not sure'', ''I don't have enough information'',
      ''I cannot answer'', ''I'm unable to provide'']"

definition shouldEscalate :: "string \<Rightarrow> bool" where
  "shouldEscalate txt =
     list_ex (\<lambda>indicator. js_includes (toLowerCase txt) (toLowerCase indicator))
       lowConfidenceIndicators"

text \<open>
  The in-memory store is the \<^verbatim>\<open>Map\<close> from conversation id to conversation; the
  state of the server process is that map and the service's \<^verbatim>\<open>initialized\<close> flag.
\<close>

record conversation =
  conv_id :: string
  messages :: "chat_message list"
  createdAt :: string

record server_state =
  conversations :: "string \<rightharpoonup> conversation"
  svc_initialized :: bool

definition initial_state :: server_state where
  "initial_state = \<lparr>conversations = Map.empty, svc_initialized = False\<rparr>"

text \<open>
  What one request reads from the runtime: \<^verbatim>\<open>Date.now()\<close>, the five characters
  \<^verbatim>\<open>Math.random().toString(36).substring(2, 7)\<close> (fewer when the expansion is short)
  and \<^verbatim>\<open>new Date().toISOString()\<close>. The timestamps of one request are one reading.
\<close>

record runtime =
  date_now :: nat
  random_suffix :: string
  iso_now :: string

definition generateConversationId :: "runtime \<Rightarrow> string" where
  "generateConversationId rt = ''conv-'' @ decimal (date_now rt) @ ''-'' @ random_suffix rt"

definition system_message :: "runtime \<Rightarrow> chat_message" where
  "system_message rt =
     \<lparr>msg_role = System,
      content = JStr ''I am an AI assistant that helps with your documentation.'',
      sources = None, timestamp = iso_now rt\<rparr>"

definition new_conversation :: "runtime \<Rightarrow> string \<Rightarrow> conversation" where
  "new_conversation rt cid =
     \<lparr>conv_id = cid, messages = [system_message rt], createdAt = iso_now rt\<rparr>"

definition user_message :: "runtime \<Rightarrow> string \<Rightarrow> chat_message" where
  "user_message rt message =
     \<lparr>msg_role = User, content = JStr message, sources = None, timestamp = iso_now rt\<rparr>"

definition assistant_message :: "runtime \<Rightarrow> query_result \<Rightarrow> chat_message" where
  "assistant_message rt response =
     \<lparr>msg_role = Assistant, content = qr_text response,
      sources = Some (case qr_sources response of None \<Rightarrow> [] | Some srcs \<Rightarrow> srcs),
      timestamp = iso_now rt\<rparr>"

text \<open>The object \<^verbatim>\<open>processMessage\<close> returns; \<open>resp_error\<close> is set by its catch block.\<close>

record chat_response =
  resp_text :: jsval
  resp_sources :: "source_ref list option"
  resp_error :: "string option"
  resp_conversationId :: string
  resp_escalate :: bool
  resp_timestamp :: string

text \<open>
  \<^verbatim>\<open>!conversationId\<close>: the id is missing (\<^verbatim>\<open>undefined\<close>) or the empty string.
\<close>

fun falsy_id :: "string option \<Rightarrow> bool" where
  "falsy_id None = True"
| "falsy_id (Some c) = (c = [])"

definition has_conversation :: "server_state \<Rightarrow> string option \<Rightarrow> bool" where
  "has_conversation st conversationId =
     (case conversationId of
        None \<Rightarrow> False
      | Some c \<Rightarrow> conversations st c \<noteq> None)"

text \<open>
  \<^verbatim>\<open>response.escalate || shouldEscalate(response.text)\<close>. When the first operand is
  not true, \<^verbatim>\<open>text.toLowerCase()\<close> is called, which throws a \<^verbatim>\<open>TypeError\<close> on
  anything but a string.
\<close>

definition toLowerCase_TypeError :: js_error where
  "toLowerCase_TypeError =
     \<lparr>err_message = ''text.toLowerCase is not a function'', err_code = None\<rparr>"

definition escalation_decision :: "query_result \<Rightarrow> js_error + bool" where
  "escalation_decision response =
     (if qr_escalate response = Some True then Inr True
      else case qr_text response of
             JStr t \<Rightarrow> Inr (shouldEscalate t)
           | _ \<Rightarrow> Inl toLowerCase_TypeError)"

text \<open>
  ``Create a new conversation if needed'': the id the request works on, and the map after
  that step.
\<close>

definition needs_new :: "server_state \<Rightarrow> string option \<Rightarrow> bool" where
  "needs_new st conversationId =
     (falsy_id conversationId \<or> \<not> has_conversation st conversationId)"

definition effective_id :: "runtime \<Rightarrow> server_state \<Rightarrow> string option \<Rightarrow> string" where
  "effective_id rt st conversationId =
     (if needs_new st conversationId then generateConversationId rt else the conversationId)"

definition ensure_conversation ::
  "runtime \<Rightarrow> server_state \<Rightarrow> string option \<Rightarrow> (string \<rightharpoonup> conversation)" where
  "ensure_conversation rt st conversationId =
     (if needs_new st conversationId
      then (conversations st)(generateConversationId rt \<mapsto>
              new_conversation rt (generateConversationId rt))
      else conversations st)"

text \<open>
  \<^verbatim>\<open>processMessage(message, conversationId)\<close>: the calls made, the state afterwards and
  the object returned. The conversation object is mutated in place, so the user message
  stays in the store when the rest of the try block throws.
\<close>

definition processMessage ::
  "collaborators \<Rightarrow> runtime \<Rightarrow> server_state \<Rightarrow> string \<Rightarrow> string option
     \<Rightarrow> call list \<times> server_state \<times> chat_response" where
  "processMessage env rt st message conversationId =
     (let cid = effective_id rt st conversationId;
          convs0 = ensure_conversation rt st conversationId;
          conversation = the (convs0 cid);
          conversation1 =
            conversation\<lparr>messages := messages conversation @ [user_message rt message]\<rparr>;
          chatHistory = drop 1 (messages conversation1)
      in case query env (svc_initialized st) message chatHistory of
           (calls, init, response) \<Rightarrow>
             (case escalation_decision response of
                Inr escalate \<Rightarrow>
                  (calls,
                   \<lparr>conversations = convs0(cid \<mapsto>
                        conversation1\<lparr>messages :=
                          messages conversation1 @ [assistant_message rt response]\<rparr>),
                    svc_initialized = init\<rparr>,
                   \<lparr>resp_text = qr_text response,
                    resp_sources = Some (case qr_sources response of None \<Rightarrow> [] | Some srcs \<Rightarrow> srcs),
                    resp_error = None, resp_conversationId = cid, resp_escalate = escalate,
                    resp_timestamp = iso_now rt\<rparr>)
              | Inl e \<Rightarrow>
                  (calls,
                   \<lparr>conversations = convs0(cid \<mapsto> conversation1), svc_initialized = init\<rparr>,
                   \<lparr>resp_text = JStr apology, resp_sources = None,
                    resp_error = Some (err_message e), resp_conversationId = cid,
                    resp_escalate = True, resp_timestamp = iso_now rt\<rparr>)))"

text \<open>
  The history \<^verbatim>\<open>processMessage\<close> hands to the service: the messages of the
  conversation after the user message was pushed, without the first one
  (\<^verbatim>\<open>slice(1)\<close>).
\<close>

definition history_sent :: "runtime \<Rightarrow> server_state \<Rightarrow> string \<Rightarrow> string option \<Rightarrow> chat_message list" where
  "history_sent rt st message conversationId =
     drop 1 (messages (the (ensure_conversation rt st conversationId
                              (effective_id rt st conversationId)))
             @ [user_message rt message])"

text \<open>
  The invariant of the store: no conversation is kept under the empty id, and the first
  message of every conversation is the system message.
\<close>

definition first_is_system :: "conversation \<Rightarrow> bool" where
  "first_is_system c = (case messages c of [] \<Rightarrow> False | m # ms \<Rightarrow> msg_role m = System)"

definition store_inv :: "server_state \<Rightarrow> bool" where
  "store_inv st = (\<forall>k c. conversations st k = Some c \<longrightarrow> k \<noteq> [] \<and> first_is_system c)"

text \<open>The states the server process can be in: from the empty map, by requests.\<close>

inductive reachable :: "server_state \<Rightarrow> bool" where
  reachable_init: "reachable initial_state"
| reachable_step:
    "reachable st \<Longrightarrow> reachable (fst (snd (processMessage env rt st message conversationId)))"

text \<open>
  \<^verbatim>\<open>handleEscalation(conversationId, reason)\<close>. The error is rethrown by the catch
  block after logging; the notification is a log line.
\<close>

record ticket =
  escalationId :: string
  t_conversationId :: string
  reason :: string
  status :: string
  t_timestamp :: string

definition handleEscalation ::
  "runtime \<Rightarrow> server_state \<Rightarrow> string option \<Rightarrow> string \<Rightarrow> js_error + ticket" where
  "handleEscalation rt st conversationId why =
     (if needs_new st conversationId
      then Inl \<lparr>err_message = ''Invalid conversation ID'', err_code = None\<rparr>
      else Inr \<lparr>escalationId = ''esc-'' @ decimal (date_now rt) @ ''-'' @ random_suffix rt,
                t_conversationId = the conversationId,
                reason = why,
                status = ''pending'',
                t_timestamp = iso_now rt\<rparr>)"

section \<open>Ingestion\<close>

text \<open>
  The collaborators of ingestion: Node's \<^verbatim>\<open>path.extname\<close>, \<^verbatim>\<open>path.basename\<close> with
  one and with two arguments, the loaders' \<^verbatim>\<open>load()\<close>, the splitter's
  \<^verbatim>\<open>splitDocuments\<close>, the constructor of the embeddings (the service builds them
  lazily, once), \<^verbatim>\<open>Chroma.fromDocuments\<close> (which embeds and upserts) and the clock.
  \<^verbatim>\<open>path.extname\<close> returns the empty string or a string that starts with a dot, so
  \<^verbatim>\<open>loaders[ext]\<close> reads one of the four own properties of the table or nothing.
\<close>

datatype loader = PDFLoader | DocxLoader | TextLoader

definition loaders :: "string \<Rightarrow> loader option" where
  "loaders =
     map_of [(''.pdf'', PDFLoader), (''.docx'', DocxLoader), (''.txt'', TextLoader),
             (''.md'', TextLoader)]"

record ingest_env =
  extname :: "string \<Rightarrow> string"
  basename :: "string \<Rightarrow> string"
  basename_ext :: "string \<Rightarrow> string \<Rightarrow> string"
  loader_load :: "loader \<Rightarrow> string \<Rightarrow> js_error + document list"
  splitDocuments :: "document list \<Rightarrow> js_error + document list"
  newEmbeddings_throws :: "js_error option"
  fromDocuments :: "document list \<Rightarrow> js_error option"
  clock :: string

text \<open>
  The JSON file written to the directory of processed files. The service writes all six
  properties, the command-line script three of them.
\<close>

record info =
  info_id :: "string option"
  originalFile :: string
  filename :: "string option"
  chunks :: nat
  processedAt :: string
  filetype :: "string option"

record ingest_state =
  embeddingsInstance :: bool
  processedDir :: "string \<rightharpoonup> info"

datatype effect =
  LoadCall loader string
| SplitCall "document list"
| FromDocumentsCall "document list"
| WriteFileCall string info

text \<open>
  The metadata map, \<^verbatim>\<open>splitDocs.map((doc, i) => ...)\<close>, of the service and of the
  script (which sets no \<^verbatim>\<open>uploadedAt\<close>).
\<close>

definition processedDocs :: "string \<Rightarrow> string \<Rightarrow> string \<Rightarrow> document list \<Rightarrow> document list" where
  "processedDocs fileName filePath now splitDocs =
     map (\<lambda>(i, doc).
        doc\<lparr>metadata :=
          AList.update ''uploadedAt'' (JStr now)
            (AList.update ''filePath'' (JStr filePath)
              (AList.update ''chunk'' (JNum (int i))
                (AList.update ''source'' (JStr fileName) (metadata doc))))\<rparr>)
      (enumerate 0 splitDocs)"

definition script_processedDocs :: "string \<Rightarrow> string \<Rightarrow> document list \<Rightarrow> document list" where
  "script_processedDocs fileName filePath splitDocs =
     map (\<lambda>(i, doc).
        doc\<lparr>metadata :=
          AList.update ''filePath'' (JStr filePath)
            (AList.update ''chunk'' (JNum (int i))
              (AList.update ''source'' (JStr fileName) (metadata doc)))\<rparr>)
      (enumerate 0 splitDocs)"

text \<open>
  \<^verbatim>\<open>processFile(filePath)\<close> of the document processing service: nothing is caught, so
  the error of a stage is the error of the call.
\<close>

definition processFile ::
  "ingest_env \<Rightarrow> ingest_state \<Rightarrow> string \<Rightarrow> effect list \<times> ingest_state \<times> (js_error + info)" where
  "processFile env st filePath =
     (let ext = toLowerCase (extname env filePath) in
      case loaders ext of
        None \<Rightarrow>
          ([], st, Inl \<lparr>err_message = ''Unsupported file type: '' @ ext, err_code = None\<rparr>)
      | Some loader \<Rightarrow>
          (let fileName = basename env filePath in
           case loader_load env loader filePath of
             Inl e \<Rightarrow> ([LoadCall loader filePath], st, Inl e)
           | Inr docs \<Rightarrow>
               (case splitDocuments env docs of
                  Inl e \<Rightarrow> ([LoadCall loader filePath, SplitCall docs], st, Inl e)
                | Inr splitDocs \<Rightarrow>
                    (let pdocs = processedDocs fileName filePath (clock env) splitDocs in
                     if \<not> embeddingsInstance st \<and> newEmbeddings_throws env \<noteq> None
                     then ([LoadCall loader filePath, SplitCall docs], st,
                           Inl (the (newEmbeddings_throws env)))
                     else
                       (let st1 = st\<lparr>embeddingsInstance := True\<rparr> in
                        case fromDocuments env pdocs of
                          Some e \<Rightarrow>
                            ([LoadCall loader filePath, SplitCall docs, FromDocumentsCall pdocs],
                             st1, Inl e)
                        | None \<Rightarrow>
                            (let written =
                                   \<lparr>info_id = Some fileName, originalFile = filePath,
                                    filename = Some fileName, chunks = length pdocs,
                                    processedAt = clock env, filetype = Some ext\<rparr>;
                                 name = basename_ext env filePath ext @ ''.json''
                             in ([LoadCall loader filePath, SplitCall docs,
                                  FromDocumentsCall pdocs, WriteFileCall name written],
                                 st1\<lparr>processedDir := (processedDir st1)(name \<mapsto> written)\<rparr>,
                                 Inr written)))))))"

text \<open>
  \<^verbatim>\<open>processFile(filePath)\<close> of the ingestion script: an unsupported extension is a
  warning and a plain \<^verbatim>\<open>return\<close>; an error of a stage is caught and gives 0.
\<close>

datatype script_result = ReturnsUndefined | ReturnsNumber nat

definition script_processFile ::
  "ingest_env \<Rightarrow> ingest_state \<Rightarrow> string \<Rightarrow> effect list \<times> ingest_state \<times> script_result" where
  "script_processFile env st filePath =
     (let ext = toLowerCase (extname env filePath) in
      case loaders ext of
        None \<Rightarrow> ([], st, ReturnsUndefined)
      | Some loader \<Rightarrow>
          (case loader_load env loader filePath of
             Inl e \<Rightarrow> ([LoadCall loader filePath], st, ReturnsNumber 0)
           | Inr docs \<Rightarrow>
               (case splitDocuments env docs of
                  Inl e \<Rightarrow> ([LoadCall loader filePath, SplitCall docs], st, ReturnsNumber 0)
                | Inr splitDocs \<Rightarrow>
                    (let pdocs = script_processedDocs (basename env filePath) filePath splitDocs in
                     case fromDocuments env pdocs of
                       Some e \<Rightarrow>
                         ([LoadCall loader filePath, SplitCall docs, FromDocumentsCall pdocs],
                          st, ReturnsNumber 0)
                     | None \<Rightarrow>
                         (let written =
                                \<lparr>info_id = None, originalFile = filePath, filename = None,
                                 chunks = length pdocs, processedAt = clock env,
                                 filetype = None\<rparr>;
                              name = basename_ext env filePath ext @ ''.json''
                          in ([LoadCall loader filePath, SplitCall docs,
                               FromDocumentsCall pdocs, WriteFileCall name written],
                              st\<lparr>processedDir := (processedDir st)(name \<mapsto> written)\<rparr>,
                              ReturnsNumber (length pdocs)))))))"

section \<open>Test doubles\<close>

text \<open>
  Concrete collaborators, used where a statement is evaluated at an input. The two prompt
  templates are those of \<^verbatim>\<open>initialize()\<close>. The double of the condensation stage fills
  the template the way string concatenation does (the \<^verbatim>\<open>question\<close> it is given is the
  whole input object of the chain, which prints as \<^verbatim>\<open>[object Object]\<close>) and returns
  the text.
\<close>

definition questionGeneratorTemplate :: "string \<Rightarrow> string \<Rightarrow> string" where
  "questionGeneratorTemplate chatHistory question =
     join [CHR 0x0A]
       [''Given the following conversation and a follow-up question, rephrase the follow-up question to be a standalone question that captures all relevant context from the conversation.'',
        [],
        ''        Chat History:'',
        ''        '' @ chatHistory,
        ''        '',
        ''        Follow-up question: '' @ question,
        ''        '',
        ''        Standalone question:'']"

definition qaTemplate_text :: "string \<Rightarrow> string \<Rightarrow> string" where
  "qaTemplate_text question context =
     join [CHR 0x0A]
       [''You are an AI assistant for answering questions about internal documentation.'',
        ''        Use the following pieces of retrieved context to answer the question.'',
        ''        If you don't know the answer, just say that you don't know.'',
        ''        Use three sentences maximum and keep the answer concise.'',
        ''        '',
        ''        Question: '' @ question,
        ''        '',
        ''        Context:'',
        ''        '' @ context,
        ''        '',
        ''        Answer:'']"

definition double_questionGenerator :: "stage1 \<Rightarrow> js_error + string" where
  "double_questionGenerator st1 =
     Inr (questionGeneratorTemplate (s1_chatHistory st1) ''[object Object]'')"

definition refund_doc :: document where
  "refund_doc =
     \<lparr>pageContent = ''Refunds are issued within 30 days.'',
      metadata = [(''source'', JStr ''policy.txt''), (''chunk'', JNum 0),
                  (''filePath'', JStr ''/data/raw/policy.txt'')]\<rparr>"

definition returns_doc :: document where
  "returns_doc =
     \<lparr>pageContent = ''Returned goods must be unopened.'',
      metadata = [(''page'', JNum 2), (''source'', JStr ''policy.pdf''), (''chunk'', JNum 3),
                  (''filePath'', JStr ''/data/raw/policy.pdf'')]\<rparr>"

definition handbook_doc :: document where
  "handbook_doc =
     \<lparr>pageContent = ''Welcome to the staff handbook.'',
      metadata = [(''source'', JStr ''handbook.md''), (''chunk'', JNum 7),
                  (''filePath'', JStr ''/data/raw/handbook.md'')]\<rparr>"

definition double_retriever :: "string \<Rightarrow> js_error + document list" where
  "double_retriever query_str =
     (if query_str = ''What is the refund policy?'' then Inr [refund_doc, returns_doc]
      else Inr [handbook_doc])"

definition double :: "(string \<Rightarrow> js_error + jsval) \<Rightarrow> collaborators" where
  "double post =
     \<lparr>initialize_throws = None,
      questionGenerator = double_questionGenerator,
      getRelevantDocuments = double_retriever,
      formatDocumentsAsString = (\<lambda>docs. join [CHR 0x0A, CHR 0x0A] (map pageContent docs)),
      qaTemplate = qaTemplate_text,
      axios_post = post\<rparr>"

definition server_answers :: "string \<Rightarrow> string \<Rightarrow> js_error + jsval" where
  "server_answers answer prompt = Inr (JStr answer)"

definition connection_refused :: "string \<Rightarrow> js_error + jsval" where
  "connection_refused prompt =
     Inl \<lparr>err_message = ''connect ECONNREFUSED 127.0.0.1:8080'',
          err_code = Some ''ECONNREFUSED''\<rparr>"

definition double_runtime :: runtime where
  "double_runtime =
     \<lparr>date_now = 1700000000000, random_suffix = ''k3x9q'',
      iso_now = ''2023-11-14T22:13:20.000Z''\<rparr>"

text \<open>The state of the server after one first request answered by the double.\<close>

definition after_first_message :: server_state where
  "after_first_message =
     fst (snd (processMessage (double (server_answers ''Refunds take 30 days.'')) double_runtime
       initial_state ''What is the refund policy?'' None))"

definition first_response :: chat_response where
  "first_response =
     snd (snd (processMessage (double (server_answers ''Refunds take 30 days.'')) double_runtime
       initial_state ''What is the refund policy?'' None))"

text \<open>
  For ingestion: the extension and the base name of a path with forward slashes, a
  splitter that cuts every document into pieces of at most twelve characters, and the
  other stages succeeding or failing as given.
\<close>

definition last_component :: "string \<Rightarrow> string" where
  "last_component p = rev (takeWhile (\<lambda>c. c \<noteq> CHR ''/'') (rev p))"

definition double_extname :: "string \<Rightarrow> string" where
  "double_extname p =
     (let b = last_component p;
          r = takeWhile (\<lambda>c. c \<noteq> CHR ''.'') (rev b)
      in if length b \<le> length r + 1 then [] else CHR ''.'' # rev r)"

definition double_basename_ext :: "string \<Rightarrow> string \<Rightarrow> string" where
  "double_basename_ext p ext =
     (let b = last_component p
      in if suffix ext b \<and> b \<noteq> ext then take (length b - length ext) b else b)"

fun pieces :: "nat \<Rightarrow> string \<Rightarrow> string list" where
  "pieces fuel [] = []"
| "pieces 0 s = [s]"
| "pieces (Suc fuel) s = take 12 s # pieces fuel (drop 12 s)"

definition double_split :: "document list \<Rightarrow> js_error + document list" where
  "double_split docs =
     Inr (concat (map (\<lambda>doc.
            map (\<lambda>piece. \<lparr>pageContent = piece, metadata = metadata doc\<rparr>)
              (pieces (length (pageContent doc)) (pageContent doc)))
          docs))"

definition double_load :: "loader \<Rightarrow> string \<Rightarrow> js_error + document list" where
  "double_load l filePath =
     Inr [\<lparr>pageContent = ''Refunds are issued within 30 days.'',
           metadata = [(''source'', JStr filePath)]\<rparr>]"

definition ingest_double :: "js_error option \<Rightarrow> ingest_env" where
  "ingest_double upsert_error =
     \<lparr>extname = double_extname,
      basename = last_component,
      basename_ext = double_basename_ext,
      loader_load = double_load,
      splitDocuments = double_split,
      newEmbeddings_throws = None,
      fromDocuments = (\<lambda>docs. upsert_error),
      clock = ''2023-11-14T22:13:20.000Z''\<rparr>"

definition upsert_refused :: js_error where
  "upsert_refused =
     \<lparr>err_message = ''connect ECONNREFUSED 127.0.0.1:8000'',
      err_code = Some ''ECONNREFUSED''\<rparr>"

definition policy_loaded :: document where
  "policy_loaded =
     \<lparr>pageContent = ''Refunds are issued within 30 days.'',
      metadata = [(''source'', JStr ''/data/raw/policy.txt'')]\<rparr>"

definition policy_pieces :: "document list" where
  "policy_pieces =
     [\<lparr>pageContent = ''Refunds are '',
       metadata = [(''source'', JStr ''/data/raw/policy.txt'')]\<rparr>,
      \<lparr>pageContent = ''issued withi'',
       metadata = [(''source'', JStr ''/data/raw/policy.txt'')]\<rparr>,
      \<lparr>pageContent = ''n 30 days.'',
       metadata = [(''source'', JStr ''/data/raw/policy.txt'')]\<rparr>]"

definition empty_ingest_state :: ingest_state where
  "empty_ingest_state = \<lparr>embeddingsInstance = False, processedDir = Map.empty\<rparr>"

section \<open>Strings\<close>

lemma js_includes_iff: "js_includes t p \<longleftrightarrow> (\<exists>u w. t = u @ p @ w)"
proof (induction t)
  case Nil
  then show ?case by auto
next
  case (Cons c cs)
  have "(\<exists>u w. c # cs = u @ p @ w) \<longleftrightarrow> prefix p (c # cs) \<or> (\<exists>u w. cs = u @ p @ w)"
    using sublist_Cons_right [of p c cs] by (simp add: sublist_def)
  with Cons show ?case by simp
qed

lemma toLowerCase_append: "toLowerCase (u @ v) = toLowerCase u @ toLowerCase v"
  by (simp add: toLowerCase_def)

lemma lowered_indicators:
  "map toLowerCase lowConfidenceIndicators =
     [''i don't know'', ''i'm not sure'', ''i don't have enough information'',
      ''i cannot answer'', ''i'm unable to provide'']"
  by (simp add: toLowerCase_def toLowerChar_def lowConfidenceIndicators_def)

lemma shouldEscalate_lowered:
  "toLowerCase txt = l \<Longrightarrow>
     shouldEscalate txt =
       list_ex (js_includes l)
         [''i don't know'', ''i'm not sure'', ''i don't have enough information'',
          ''i cannot answer'', ''i'm unable to provide'']"
proof -
  assume "toLowerCase txt = l"
  then have "shouldEscalate txt = list_ex (js_includes l) (map toLowerCase lowConfidenceIndicators)"
    by (simp add: shouldEscalate_def list_ex_iff)
  then show ?thesis
    by (simp only: lowered_indicators)
qed

lemma shouldEscalate_contains:
  assumes "indicator \<in> set lowConfidenceIndicators"
    and "txt = u @ v @ w"
    and "toLowerCase v = toLowerCase indicator"
  shows "shouldEscalate txt"
proof -
  have "toLowerCase txt = toLowerCase u @ toLowerCase indicator @ toLowerCase w"
    using assms(2,3) by (simp add: toLowerCase_append)
  then have "js_includes (toLowerCase txt) (toLowerCase indicator)"
    unfolding js_includes_iff by blast
  with assms(1) show ?thesis
    unfolding shouldEscalate_def list_ex_iff by blast
qed

section \<open>Escalation on low-confidence answers\<close>

lemma processMessage_ok:
  assumes "query env (svc_initialized st) message (history_sent rt st message conversationId)
             = (calls, init, response)"
    and "escalation_decision response = Inr escalate"
  shows "processMessage env rt st message conversationId =
     (calls,
      \<lparr>conversations = (ensure_conversation rt st conversationId)
          (effective_id rt st conversationId \<mapsto>
             (the (ensure_conversation rt st conversationId (effective_id rt st conversationId)))
               \<lparr>messages :=
                  messages (the (ensure_conversation rt st conversationId
                                   (effective_id rt st conversationId)))
                  @ [user_message rt message, assistant_message rt response]\<rparr>),
       svc_initialized = init\<rparr>,
      \<lparr>resp_text = qr_text response,
       resp_sources = Some (case qr_sources response of None \<Rightarrow> [] | Some srcs \<Rightarrow> srcs),
       resp_error = None, resp_conversationId = effective_id rt st conversationId,
       resp_escalate = escalate, resp_timestamp = iso_now rt\<rparr>)"
  using assms by (simp add: processMessage_def history_sent_def Let_def)

lemma processMessage_thrown:
  assumes "query env (svc_initialized st) message (history_sent rt st message conversationId)
             = (calls, init, response)"
    and "escalation_decision response = Inl e"
  shows "processMessage env rt st message conversationId =
     (calls,
      \<lparr>conversations = (ensure_conversation rt st conversationId)
          (effective_id rt st conversationId \<mapsto>
             (the (ensure_conversation rt st conversationId (effective_id rt st conversationId)))
               \<lparr>messages :=
                  messages (the (ensure_conversation rt st conversationId
                                   (effective_id rt st conversationId)))
                  @ [user_message rt message]\<rparr>),
       svc_initialized = init\<rparr>,
      \<lparr>resp_text = JStr apology, resp_sources = None,
       resp_error = Some (err_message e), resp_conversationId = effective_id rt st conversationId,
       resp_escalate = True, resp_timestamp = iso_now rt\<rparr>)"
  using assms by (simp add: processMessage_def history_sent_def Let_def)

lemma escalation_decision_text:
  assumes "qr_text response = JStr t" and "shouldEscalate t"
  shows "escalation_decision response = Inr True"
  using assms by (simp add: escalation_decision_def)

text \<open>
  C3. Whenever the text that \<^verbatim>\<open>processMessage\<close> returns has a substring equal, up to
  the case of its letters, to one of the five low-confidence phrases, the escalation flag
  of the response is true, whether or not the inference call succeeded.
\<close>

theorem C3_low_confidence_text_escalates:
  assumes "resp_text (snd (snd (processMessage env rt st message conversationId))) = JStr t"
    and "indicator \<in> set lowConfidenceIndicators"
    and "t = u @ v @ w"
    and "toLowerCase v = toLowerCase indicator"
  shows "resp_escalate (snd (snd (processMessage env rt st message conversationId)))"
proof -
  obtain calls init response
    where q: "query env (svc_initialized st) message (history_sent rt st message conversationId)
                = (calls, init, response)"
    by (cases "query env (svc_initialized st) message (history_sent rt st message conversationId)")
  show ?thesis
  proof (cases "escalation_decision response")
    case (Inl e)
    show ?thesis
      by (simp add: processMessage_thrown [OF q Inl])
  next
    case (Inr escalate)
    have "shouldEscalate t"
      using assms(2-4) by (rule shouldEscalate_contains)
    moreover have "qr_text response = JStr t"
      using assms(1) by (simp add: processMessage_ok [OF q Inr])
    ultimately have "escalation_decision response = Inr True"
      by (simp add: escalation_decision_text)
    with Inr have "escalate" by simp
    then show ?thesis
      by (simp add: processMessage_ok [OF q Inr])
  qed
qed

lemma double_query_answer:
  "query (double (server_answers answer)) False ''What is the refund policy?'' h =
     ([QuestionGeneratorCall
         \<lparr>s1_question = \<lparr>ci_question = ''What is the refund policy?'',
                          ci_chatHistory = formattedHistory h\<rparr>,
          s1_chatHistory = []\<rparr>,
       GetRelevantDocumentsCall (questionGeneratorTemplate [] ''[object Object]'')
         (Inr [handbook_doc]),
       AxiosPostCall (qaTemplate_text (questionGeneratorTemplate [] ''[object Object]'')
          ''Welcome to the staff handbook.''),
       GetRelevantDocumentsCall ''What is the refund policy?'' (Inr [refund_doc, returns_doc])],
      True,
      \<lparr>qr_text = JStr answer, qr_sources = Some [toSource refund_doc, toSource returns_doc],
       qr_error = None, qr_escalate = None\<rparr>)"
proof -
  have neq: "questionGeneratorTemplate [] ''[object Object]'' \<noteq> ''What is the refund policy?''"
    by (simp add: questionGeneratorTemplate_def)
  show ?thesis
    using neq
    by (simp add: query_def chain_invoke_def double_def double_questionGenerator_def
        double_retriever_def retrieveDocuments_def callLlamaServer_def server_answers_def
        handbook_doc_def Let_def)
qed

lemma double_processMessage_text:
  "resp_text (snd (snd (processMessage (double (server_answers answer)) double_runtime
      initial_state ''What is the refund policy?'' None))) = JStr answer"
  by (simp add: processMessage_def Let_def initial_state_def double_query_answer
      escalation_decision_def split: sum.splits)

theorem C3_witness:
  "resp_text (snd (snd (processMessage (double (server_answers ''Sorry, I DON'T KNOW that.''))
      double_runtime initial_state ''What is the refund policy?'' None)))
     = JStr ''Sorry, I DON'T KNOW that.''
   \<and> ''I don't know'' \<in> set lowConfidenceIndicators
   \<and> ''Sorry, I DON'T KNOW that.'' = ''Sorry, '' @ ''I DON'T KNOW'' @ '' that.''
   \<and> toLowerCase ''I DON'T KNOW'' = toLowerCase ''I don't know''
   \<and> resp_escalate (snd (snd (processMessage (double (server_answers ''Sorry, I DON'T KNOW that.''))
      double_runtime initial_state ''What is the refund policy?'' None)))"
proof -
  have h1: "resp_text (snd (snd (processMessage (double (server_answers ''Sorry, I DON'T KNOW that.''))
      double_runtime initial_state ''What is the refund policy?'' None)))
     = JStr ''Sorry, I DON'T KNOW that.''"
    by (rule double_processMessage_text)
  have h2: "''I don't know'' \<in> set lowConfidenceIndicators"
    by (simp add: lowConfidenceIndicators_def)
  have h3: "''Sorry, I DON'T KNOW that.'' = ''Sorry, '' @ ''I DON'T KNOW'' @ '' that.''"
    by simp
  have h4: "toLowerCase ''I DON'T KNOW'' = toLowerCase ''I don't know''"
    by (simp add: toLowerCase_def toLowerChar_def)
  from C3_low_confidence_text_escalates [OF h1 h2 h3 h4] h1 h2 h3 h4
  show ?thesis by blast
qed

section \<open>The conversation store\<close>

lemma generateConversationId_nonempty: "generateConversationId rt \<noteq> []"
  by (simp add: generateConversationId_def)

lemma first_is_system_append:
  "first_is_system c \<Longrightarrow> first_is_system (c\<lparr>messages := messages c @ xs\<rparr>)"
  by (cases "messages c") (simp_all add: first_is_system_def)

lemma ensure_conversation_effective:
  assumes "store_inv st"
  shows "\<exists>c. ensure_conversation rt st conversationId (effective_id rt st conversationId) = Some c
           \<and> first_is_system c"
proof (cases "needs_new st conversationId")
  case True
  then show ?thesis
    by (simp add: ensure_conversation_def effective_id_def new_conversation_def
        first_is_system_def system_message_def)
next
  case False
  then obtain cid c where "conversationId = Some cid" and "conversations st cid = Some c"
    by (cases conversationId) (auto simp: needs_new_def has_conversation_def)
  with False assms show ?thesis
    by (auto simp: ensure_conversation_def effective_id_def store_inv_def)
qed

lemma effective_id_nonempty: "effective_id rt st conversationId \<noteq> []"
  by (cases conversationId)
    (auto simp: effective_id_def needs_new_def generateConversationId_nonempty)

lemma ensure_conversation_other:
  "k \<noteq> effective_id rt st conversationId \<Longrightarrow>
     ensure_conversation rt st conversationId k = conversations st k"
  by (auto simp: ensure_conversation_def effective_id_def)

lemma processMessage_store:
  obtains xs where
    "conversations (fst (snd (processMessage env rt st message conversationId))) =
       (ensure_conversation rt st conversationId)
         (effective_id rt st conversationId \<mapsto>
            (the (ensure_conversation rt st conversationId (effective_id rt st conversationId)))
              \<lparr>messages :=
                 messages (the (ensure_conversation rt st conversationId
                                  (effective_id rt st conversationId))) @ xs\<rparr>)"
proof -
  obtain calls init response
    where q: "query env (svc_initialized st) message (history_sent rt st message conversationId)
                = (calls, init, response)"
    by (cases "query env (svc_initialized st) message (history_sent rt st message conversationId)")
  show thesis
  proof (cases "escalation_decision response")
    case (Inl e)
    show thesis
      by (rule that [of "[user_message rt message]"]) (simp add: processMessage_thrown [OF q Inl])
  next
    case (Inr escalate)
    show thesis
      by (rule that [of "[user_message rt message, assistant_message rt response]"])
        (simp add: processMessage_ok [OF q Inr])
  qed
qed

lemma processMessage_store_inv:
  assumes "store_inv st"
  shows "store_inv (fst (snd (processMessage env rt st message conversationId)))"
proof -
  obtain c where c: "ensure_conversation rt st conversationId (effective_id rt st conversationId) = Some c"
    and sys: "first_is_system c"
    using ensure_conversation_effective [OF assms] by blast
  obtain xs where st': "conversations (fst (snd (processMessage env rt st message conversationId))) =
       (ensure_conversation rt st conversationId)
         (effective_id rt st conversationId \<mapsto> c\<lparr>messages := messages c @ xs\<rparr>)"
    using processMessage_store [of env rt st message conversationId] c
    by (metis option.sel)
  show ?thesis
    unfolding store_inv_def
  proof (intro allI impI)
    fix k d
    assume kd: "conversations (fst (snd (processMessage env rt st message conversationId))) k = Some d"
    show "k \<noteq> [] \<and> first_is_system d"
    proof (cases "k = effective_id rt st conversationId")
      case True
      with kd st' have "d = c\<lparr>messages := messages c @ xs\<rparr>" by simp
      with True sys show ?thesis
        by (simp add: effective_id_nonempty first_is_system_append)
    next
      case False
      with kd st' have "conversations st k = Some d"
        by (simp add: ensure_conversation_other)
      with assms show ?thesis
        by (simp add: store_inv_def)
    qed
  qed
qed

lemma reachable_store_inv: "reachable st \<Longrightarrow> store_inv st"
proof (induction rule: reachable.induct)
  case reachable_init
  show ?case by (simp add: store_inv_def initial_state_def)
next
  case (reachable_step st env rt message conversationId)
  then show ?case by (simp add: processMessage_store_inv)
qed

section \<open>Escalation tickets\<close>

text \<open>
  C7. In every state the server can reach, \<^verbatim>\<open>handleEscalation\<close> returns, for an id
  that is in the conversation store, a ticket whose status is \<^verbatim>\<open>pending\<close> and whose
  conversation id is the one given; for a missing id and for an id that is not in the
  store it throws the error ``Invalid conversation ID'' and returns no ticket.
\<close>

theorem C7_handleEscalation:
  assumes "reachable st"
  shows "(cid \<in> dom (conversations st) \<longrightarrow>
            (\<exists>t. handleEscalation rt st (Some cid) why = Inr t
                 \<and> status t = ''pending'' \<and> t_conversationId t = cid))
       \<and> (cid \<notin> dom (conversations st) \<longrightarrow>
            (\<exists>e. handleEscalation rt st (Some cid) why = Inl e
                 \<and> err_message e = ''Invalid conversation ID''))
       \<and> (\<exists>e. handleEscalation rt st None why = Inl e
                 \<and> err_message e = ''Invalid conversation ID'')"
proof (intro conjI impI)
  assume known: "cid \<in> dom (conversations st)"
  then obtain c where c: "conversations st cid = Some c" by blast
  with assms have "cid \<noteq> []"
    using reachable_store_inv [of st] by (auto simp: store_inv_def)
  with c show "\<exists>t. handleEscalation rt st (Some cid) why = Inr t
      \<and> status t = ''pending'' \<and> t_conversationId t = cid"
    by (simp add: handleEscalation_def needs_new_def has_conversation_def)
next
  assume "cid \<notin> dom (conversations st)"
  then show "\<exists>e. handleEscalation rt st (Some cid) why = Inl e
      \<and> err_message e = ''Invalid conversation ID''"
    by (auto simp: handleEscalation_def needs_new_def has_conversation_def)
next
  show "\<exists>e. handleEscalation rt st None why = Inl e
      \<and> err_message e = ''Invalid conversation ID''"
    by (simp add: handleEscalation_def needs_new_def)
qed

lemma double_generateConversationId:
  "generateConversationId double_runtime = ''conv-1700000000000-k3x9q''"
  by (simp add: generateConversationId_def double_runtime_def decimal.simps)

lemma initial_conversations: "conversations initial_state = Map.empty"
  by (simp add: initial_state_def)

lemma double_effective_id:
  "effective_id double_runtime initial_state None = ''conv-1700000000000-k3x9q''"
  by (simp add: effective_id_def needs_new_def double_generateConversationId)

lemma double_first_query:
  "query (double (server_answers ''Refunds take 30 days.'')) (svc_initialized initial_state)
      ''What is the refund policy?''
      (history_sent double_runtime initial_state ''What is the refund policy?'' None) =
     ([QuestionGeneratorCall
         \<lparr>s1_question = \<lparr>ci_question = ''What is the refund policy?'',
                          ci_chatHistory = formattedHistory
              (history_sent double_runtime initial_state ''What is the refund policy?'' None)\<rparr>,
          s1_chatHistory = []\<rparr>,
       GetRelevantDocumentsCall (questionGeneratorTemplate [] ''[object Object]'')
         (Inr [handbook_doc]),
       AxiosPostCall (qaTemplate_text (questionGeneratorTemplate [] ''[object Object]'')
          ''Welcome to the staff handbook.''),
       GetRelevantDocumentsCall ''What is the refund policy?'' (Inr [refund_doc, returns_doc])],
      True,
      \<lparr>qr_text = JStr ''Refunds take 30 days.'',
       qr_sources = Some [toSource refund_doc, toSource returns_doc],
       qr_error = None, qr_escalate = None\<rparr>)"
  by (simp add: initial_state_def double_query_answer)

lemma double_first_decision:
  "escalation_decision
      \<lparr>qr_text = JStr ''Refunds take 30 days.'',
       qr_sources = Some [toSource refund_doc, toSource returns_doc],
       qr_error = None, qr_escalate = None\<rparr> = Inr False"
proof -
  have "toLowerCase ''Refunds take 30 days.'' = ''refunds take 30 days.''"
    by (simp add: toLowerCase_def toLowerChar_def)
  then have "\<not> shouldEscalate ''Refunds take 30 days.''"
    by (simp add: shouldEscalate_lowered)
  then show ?thesis
    by (simp add: escalation_decision_def)
qed

lemma after_first_message_conversations:
  "conversations after_first_message =
     [''conv-1700000000000-k3x9q'' \<mapsto>
        \<lparr>conv_id = ''conv-1700000000000-k3x9q'',
         messages =
           [system_message double_runtime,
            user_message double_runtime ''What is the refund policy?'',
            assistant_message double_runtime
              \<lparr>qr_text = JStr ''Refunds take 30 days.'',
               qr_sources = Some [toSource refund_doc, toSource returns_doc],
               qr_error = None, qr_escalate = None\<rparr>],
         createdAt = iso_now double_runtime\<rparr>]"
  unfolding after_first_message_def processMessage_ok [OF double_first_query double_first_decision]
  by (simp add: double_effective_id ensure_conversation_def needs_new_def
      double_generateConversationId new_conversation_def initial_conversations)

lemma first_response_value:
  "first_response =
     \<lparr>resp_text = JStr ''Refunds take 30 days.'',
      resp_sources = Some [toSource refund_doc, toSource returns_doc],
      resp_error = None, resp_conversationId = ''conv-1700000000000-k3x9q'',
      resp_escalate = False, resp_timestamp = iso_now double_runtime\<rparr>"
  unfolding first_response_def processMessage_ok [OF double_first_query double_first_decision]
  by (simp add: double_effective_id)

theorem C7_witness:
  "reachable after_first_message
   \<and> ''conv-1700000000000-k3x9q'' \<in> dom (conversations after_first_message)
   \<and> (\<exists>t. handleEscalation double_runtime after_first_message
              (Some ''conv-1700000000000-k3x9q'') ''test'' = Inr t
          \<and> status t = ''pending'' \<and> t_conversationId t = ''conv-1700000000000-k3x9q'')
   \<and> ''conv-X'' \<notin> dom (conversations after_first_message)
   \<and> (\<exists>e. handleEscalation double_runtime after_first_message (Some ''conv-X'') ''test'' = Inl e
          \<and> err_message e = ''Invalid conversation ID'')"
proof -
  have r: "reachable after_first_message"
    unfolding after_first_message_def by (rule reachable_step [OF reachable_init])
  have known: "''conv-1700000000000-k3x9q'' \<in> dom (conversations after_first_message)"
    by (simp add: after_first_message_conversations)
  have unknown: "''conv-X'' \<notin> dom (conversations after_first_message)"
    by (simp add: after_first_message_conversations)
  from C7_handleEscalation [OF r, of "''conv-1700000000000-k3x9q''" double_runtime "''test''"]
    C7_handleEscalation [OF r, of "''conv-X''" double_runtime "''test''"]
    r known unknown
  show ?thesis by blast
qed

section \<open>Conversations under \<^verbatim>\<open>processMessage\<close>\<close>

lemma processMessage_conversationId:
  "resp_conversationId (snd (snd (processMessage env rt st message conversationId))) =
     effective_id rt st conversationId"
proof -
  obtain calls init response
    where q: "query env (svc_initialized st) message (history_sent rt st message conversationId)
                = (calls, init, response)"
    by (cases "query env (svc_initialized st) message (history_sent rt st message conversationId)")
  show ?thesis
  proof (cases "escalation_decision response")
    case (Inl e)
    show ?thesis by (simp add: processMessage_thrown [OF q Inl])
  next
    case (Inr escalate)
    show ?thesis by (simp add: processMessage_ok [OF q Inr])
  qed
qed

lemma processMessage_success:
  assumes "resp_error (snd (snd (processMessage env rt st message conversationId))) = None"
  shows "conversations (fst (snd (processMessage env rt st message conversationId))) =
       (ensure_conversation rt st conversationId)
         (effective_id rt st conversationId \<mapsto>
            (the (ensure_conversation rt st conversationId (effective_id rt st conversationId)))
              \<lparr>messages :=
                 messages (the (ensure_conversation rt st conversationId
                                  (effective_id rt st conversationId)))
                 @ [user_message rt message,
                    \<lparr>msg_role = Assistant,
                     content = resp_text (snd (snd (processMessage env rt st message conversationId))),
                     sources = resp_sources (snd (snd (processMessage env rt st message conversationId))),
                     timestamp = iso_now rt\<rparr>]\<rparr>)"
proof -
  obtain calls init response
    where q: "query env (svc_initialized st) message (history_sent rt st message conversationId)
                = (calls, init, response)"
    by (cases "query env (svc_initialized st) message (history_sent rt st message conversationId)")
  show ?thesis
  proof (cases "escalation_decision response")
    case (Inl e)
    with assms show ?thesis by (simp add: processMessage_thrown [OF q Inl])
  next
    case (Inr escalate)
    show ?thesis by (simp add: processMessage_ok [OF q Inr] assistant_message_def)
  qed
qed

text \<open>
  C9, as the code has it. In every state the server can reach, a request with a missing
  or unknown conversation id works on a fresh conversation stored under the generated id
  \<^verbatim>\<open>conv-<Date.now()>-<suffix>\<close>, which is the id returned (so it differs from the id
  supplied unless the client sent that very string), and the first stored message of that
  conversation is the system message; a request with a known id returns that id. Every
  request that succeeds (returns no \<^verbatim>\<open>error\<close>) appends to the conversation the user
  message followed by the assistant message and nothing else, so the number of messages
  grows by 2. In the state after the request every conversation still starts with a system
  message.
\<close>

theorem C9_processMessage_conversation:
  assumes "reachable st"
  shows "(needs_new st conversationId \<longrightarrow>
            resp_conversationId (snd (snd (processMessage env rt st message conversationId)))
              = generateConversationId rt
          \<and> (conversationId \<noteq> Some (generateConversationId rt) \<longrightarrow>
               Some (resp_conversationId (snd (snd (processMessage env rt st message conversationId))))
                 \<noteq> conversationId)
          \<and> (\<exists>c. conversations (fst (snd (processMessage env rt st message conversationId)))
                     (generateConversationId rt) = Some c
                 \<and> hd (messages c) = system_message rt))
       \<and> (\<not> needs_new st conversationId \<longrightarrow>
            Some (resp_conversationId (snd (snd (processMessage env rt st message conversationId))))
              = conversationId)
       \<and> (resp_error (snd (snd (processMessage env rt st message conversationId))) = None \<longrightarrow>
            (\<exists>before after.
               (if needs_new st conversationId then before = new_conversation rt (generateConversationId rt)
                else conversations st (the conversationId) = Some before)
             \<and> conversations (fst (snd (processMessage env rt st message conversationId)))
                  (resp_conversationId (snd (snd (processMessage env rt st message conversationId))))
                  = Some after
             \<and> messages after = messages before @
                  [user_message rt message,
                   \<lparr>msg_role = Assistant,
                    content = resp_text (snd (snd (processMessage env rt st message conversationId))),
                    sources = resp_sources (snd (snd (processMessage env rt st message conversationId))),
                    timestamp = iso_now rt\<rparr>]
             \<and> length (messages after) = length (messages before) + 2))
       \<and> (\<forall>k c. conversations (fst (snd (processMessage env rt st message conversationId))) k = Some c
             \<longrightarrow> first_is_system c)
       \<and> reachable (fst (snd (processMessage env rt st message conversationId)))"
proof -
  let ?r = "processMessage env rt st message conversationId"
  have inv: "store_inv st"
    using assms by (rule reachable_store_inv)
  have reach': "reachable (fst (snd ?r))"
    using assms by (rule reachable_step)
  then have inv': "store_inv (fst (snd ?r))"
    by (rule reachable_store_inv)
  obtain c0 where c0: "ensure_conversation rt st conversationId (effective_id rt st conversationId) = Some c0"
    and sys0: "first_is_system c0"
    using ensure_conversation_effective [OF inv] by blast
  obtain xs where st': "conversations (fst (snd ?r)) =
       (ensure_conversation rt st conversationId)
         (effective_id rt st conversationId \<mapsto> c0\<lparr>messages := messages c0 @ xs\<rparr>)"
    using processMessage_store [of env rt st message conversationId] c0
    by (metis option.sel)
  have fresh: "needs_new st conversationId \<longrightarrow>
      resp_conversationId (snd (snd ?r)) = generateConversationId rt
      \<and> (conversationId \<noteq> Some (generateConversationId rt) \<longrightarrow>
            Some (resp_conversationId (snd (snd ?r))) \<noteq> conversationId)
      \<and> (\<exists>c. conversations (fst (snd ?r)) (generateConversationId rt) = Some c
             \<and> hd (messages c) = system_message rt)"
  proof
    assume new: "needs_new st conversationId"
    then have eid: "effective_id rt st conversationId = generateConversationId rt"
      by (simp add: effective_id_def)
    with new c0 have "c0 = new_conversation rt (generateConversationId rt)"
      by (simp add: ensure_conversation_def)
    then have "hd (messages (c0\<lparr>messages := messages c0 @ xs\<rparr>)) = system_message rt"
      by (simp add: new_conversation_def)
    with st' eid show "resp_conversationId (snd (snd ?r)) = generateConversationId rt
      \<and> (conversationId \<noteq> Some (generateConversationId rt) \<longrightarrow>
            Some (resp_conversationId (snd (snd ?r))) \<noteq> conversationId)
      \<and> (\<exists>c. conversations (fst (snd ?r)) (generateConversationId rt) = Some c
             \<and> hd (messages c) = system_message rt)"
      by (auto simp: processMessage_conversationId)
  qed
  have known: "\<not> needs_new st conversationId \<longrightarrow>
      Some (resp_conversationId (snd (snd ?r))) = conversationId"
    by (cases conversationId)
      (auto simp: processMessage_conversationId effective_id_def needs_new_def)
  have appended: "resp_error (snd (snd ?r)) = None \<longrightarrow>
      (\<exists>before after.
         (if needs_new st conversationId then before = new_conversation rt (generateConversationId rt)
          else conversations st (the conversationId) = Some before)
       \<and> conversations (fst (snd ?r)) (resp_conversationId (snd (snd ?r))) = Some after
       \<and> messages after = messages before @
            [user_message rt message,
             \<lparr>msg_role = Assistant, content = resp_text (snd (snd ?r)),
              sources = resp_sources (snd (snd ?r)), timestamp = iso_now rt\<rparr>]
       \<and> length (messages after) = length (messages before) + 2)"
  proof
    assume ok: "resp_error (snd (snd ?r)) = None"
    have before: "if needs_new st conversationId
        then c0 = new_conversation rt (generateConversationId rt)
        else conversations st (the conversationId) = Some c0"
      using c0 by (simp add: ensure_conversation_def effective_id_def split: if_splits)
    let ?after = "c0\<lparr>messages := messages c0 @
        [user_message rt message,
         \<lparr>msg_role = Assistant, content = resp_text (snd (snd ?r)),
          sources = resp_sources (snd (snd ?r)), timestamp = iso_now rt\<rparr>]\<rparr>"
    have "conversations (fst (snd ?r)) (resp_conversationId (snd (snd ?r))) = Some ?after"
      using processMessage_success [OF ok] c0 by (simp add: processMessage_conversationId)
    with before show "\<exists>before after.
         (if needs_new st conversationId then before = new_conversation rt (generateConversationId rt)
          else conversations st (the conversationId) = Some before)
       \<and> conversations (fst (snd ?r)) (resp_conversationId (snd (snd ?r))) = Some after
       \<and> messages after = messages before @
            [user_message rt message,
             \<lparr>msg_role = Assistant, content = resp_text (snd (snd ?r)),
              sources = resp_sources (snd (snd ?r)), timestamp = iso_now rt\<rparr>]
       \<and> length (messages after) = length (messages before) + 2"
      by (intro exI [of _ c0] exI [of _ ?after]) simp
  qed
  have all_sys: "\<forall>k c. conversations (fst (snd ?r)) k = Some c \<longrightarrow> first_is_system c"
    using inv' by (simp add: store_inv_def)
  from fresh known appended all_sys reach' show ?thesis
    by (intro conjI)
qed

theorem C9_witness:
  "reachable initial_state
   \<and> needs_new initial_state None
   \<and> resp_error first_response = None
   \<and> resp_conversationId first_response = generateConversationId double_runtime
   \<and> Some (resp_conversationId first_response) \<noteq> None
   \<and> (\<exists>c. conversations after_first_message (generateConversationId double_runtime) = Some c
          \<and> hd (messages c) = system_message double_runtime \<and> first_is_system c)
   \<and> (\<exists>after. conversations after_first_message (resp_conversationId first_response) = Some after
          \<and> messages after =
              messages (new_conversation double_runtime (generateConversationId double_runtime)) @
              [user_message double_runtime ''What is the refund policy?'',
               \<lparr>msg_role = Assistant, content = resp_text first_response,
                sources = resp_sources first_response, timestamp = iso_now double_runtime\<rparr>]
          \<and> length (messages after) =
              length (messages (new_conversation double_runtime
                                  (generateConversationId double_runtime))) + 2)
   \<and> reachable after_first_message"
proof -
  have new: "needs_new initial_state None"
    by (simp add: needs_new_def)
  have ok: "resp_error first_response = None"
    by (simp add: first_response_value)
  from C9_processMessage_conversation [OF reachable_init, of None
      "double (server_answers ''Refunds take 30 days.'')" double_runtime
      "''What is the refund policy?''"] new ok reachable_init
  show ?thesis
    unfolding after_first_message_def [symmetric] first_response_def [symmetric]
    by auto
qed

text \<open>
  The id returned for an unknown id is not always different from the id supplied: a
  client that sends the string the generator produces for this request gets it back.
\<close>

theorem C9_counterexample:
  "''conv-1700000000000-k3x9q'' \<notin> dom (conversations initial_state)
   \<and> resp_conversationId (snd (snd (processMessage
        (double (server_answers ''Refunds take 30 days.'')) double_runtime initial_state
        ''What is the refund policy?'' (Some ''conv-1700000000000-k3x9q''))))
       = ''conv-1700000000000-k3x9q''"
  by (simp add: processMessage_conversationId effective_id_def double_generateConversationId
      initial_conversations)

section \<open>The answer operation: calls, sources and failures\<close>

lemma formattedHistory_empty: "formattedHistory [] = []"
  by (simp add: formattedHistory_def)

text \<open>What \<^verbatim>\<open>query\<close> does, stage by stage.\<close>

lemma query_initialize_throws:
  assumes "\<not> initialized" and "initialize_throws env = Some e"
  shows "query env initialized q h = ([], False, query_catch e)"
  using assms by (simp add: query_def)

lemma query_generator_throws:
  assumes "initialized \<or> initialize_throws env = None"
    and "questionGenerator env
           \<lparr>s1_question = \<lparr>ci_question = q, ci_chatHistory = formattedHistory h\<rparr>,
            s1_chatHistory = []\<rparr> = Inl e"
  shows "query env initialized q h =
     ([QuestionGeneratorCall
         \<lparr>s1_question = \<lparr>ci_question = q, ci_chatHistory = formattedHistory h\<rparr>,
          s1_chatHistory = []\<rparr>],
      True, query_catch e)"
  using assms by (auto simp: query_def chain_invoke_def Let_def)

lemma query_chain_returns:
  assumes "initialized \<or> initialize_throws env = None"
    and "questionGenerator env
           \<lparr>s1_question = \<lparr>ci_question = q, ci_chatHistory = formattedHistory h\<rparr>,
            s1_chatHistory = []\<rparr> = Inr standalone"
  shows "query env initialized q h =
     ([QuestionGeneratorCall
         \<lparr>s1_question = \<lparr>ci_question = q, ci_chatHistory = formattedHistory h\<rparr>,
          s1_chatHistory = []\<rparr>,
       GetRelevantDocumentsCall standalone (getRelevantDocuments env standalone),
       AxiosPostCall (qaTemplate env standalone (retrieveDocuments env standalone)),
       GetRelevantDocumentsCall q (getRelevantDocuments env q)],
      True,
      (case getRelevantDocuments env q of
         Inl e \<Rightarrow> query_catch e
       | Inr docs \<Rightarrow>
           \<lparr>qr_text = callLlamaServer env
                        (qaTemplate env standalone (retrieveDocuments env standalone)),
            qr_sources = Some (map toSource docs), qr_error = None, qr_escalate = None\<rparr>))"
  using assms by (auto simp: query_def chain_invoke_def Let_def split: sum.splits)

lemma query_success:
  assumes "qr_error (snd (snd (query env initialized q h))) = None"
  obtains standalone docs where
    "initialized \<or> initialize_throws env = None"
    "questionGenerator env
       \<lparr>s1_question = \<lparr>ci_question = q, ci_chatHistory = formattedHistory h\<rparr>,
        s1_chatHistory = []\<rparr> = Inr standalone"
    "getRelevantDocuments env q = Inr docs"
proof -
  have init: "initialized \<or> initialize_throws env = None"
  proof (rule ccontr)
    assume "\<not> (initialized \<or> initialize_throws env = None)"
    then obtain e where "\<not> initialized" and "initialize_throws env = Some e" by auto
    then have "query env initialized q h = ([], False, query_catch e)"
      by (rule query_initialize_throws)
    with assms show False by (simp add: query_catch_def)
  qed
  show thesis
  proof (cases "questionGenerator env
       \<lparr>s1_question = \<lparr>ci_question = q, ci_chatHistory = formattedHistory h\<rparr>,
        s1_chatHistory = []\<rparr>")
    case (Inl e)
    with assms show thesis
      by (simp add: query_generator_throws [OF init Inl] query_catch_def)
  next
    case (Inr standalone)
    show thesis
    proof (cases "getRelevantDocuments env q")
      case (Inl e)
      with assms show thesis
        by (simp add: query_chain_returns [OF init Inr] query_catch_def)
    next
      case docs: (Inr docs)
      from init Inr docs show thesis by (rule that)
    qed
  qed
qed

lemma toSource_truthy:
  "source (toSource doc) = md_get (metadata doc) ''source''"
  "truthy (md_get (metadata doc) ''page'') \<Longrightarrow> page (toSource doc) = md_get (metadata doc) ''page''"
  "truthy (md_get (metadata doc) ''chunk'') \<Longrightarrow> chunk (toSource doc) = md_get (metadata doc) ''chunk''"
  "\<not> truthy (md_get (metadata doc) ''page'') \<Longrightarrow> page (toSource doc) = JNull"
  "\<not> truthy (md_get (metadata doc) ''chunk'') \<Longrightarrow> chunk (toSource doc) = JNull"
  by (simp_all add: toSource_def js_or_def)

text \<open>
  C10. In the sources that \<^verbatim>\<open>query\<close> returns, the entry of a retrieved chunk whose
  metadata has chunk index 0 has \<^verbatim>\<open>chunk\<close> null, and one whose metadata has page 0 has
  \<^verbatim>\<open>page\<close> null; a chunk index or page that is a number other than 0 is returned as
  it is.
\<close>

theorem C10_zero_index_reported_null:
  assumes "qr_sources (snd (snd (query env initialized q h))) = Some srcs"
  shows "\<exists>docs. getRelevantDocuments env q = Inr docs \<and> length srcs = length docs
     \<and> (\<forall>j < length docs.
           (md_get (metadata (docs ! j)) ''chunk'' = JNum 0 \<longrightarrow> chunk (srcs ! j) = JNull)
         \<and> (md_get (metadata (docs ! j)) ''page'' = JNum 0 \<longrightarrow> page (srcs ! j) = JNull)
         \<and> (\<forall>n. n \<noteq> 0 \<longrightarrow> md_get (metadata (docs ! j)) ''chunk'' = JNum n
                \<longrightarrow> chunk (srcs ! j) = JNum n)
         \<and> (\<forall>n. n \<noteq> 0 \<longrightarrow> md_get (metadata (docs ! j)) ''page'' = JNum n
                \<longrightarrow> page (srcs ! j) = JNum n))"
proof -
  have ok: "qr_error (snd (snd (query env initialized q h))) = None"
  proof (rule ccontr)
    assume "qr_error (snd (snd (query env initialized q h))) \<noteq> None"
    then have "qr_sources (snd (snd (query env initialized q h))) = None"
      by (auto simp: query_def chain_invoke_def query_catch_def Let_def
          split: if_splits sum.splits prod.splits)
    with assms show False by simp
  qed
  then obtain standalone docs where init: "initialized \<or> initialize_throws env = None"
    and gen: "questionGenerator env
       \<lparr>s1_question = \<lparr>ci_question = q, ci_chatHistory = formattedHistory h\<rparr>,
        s1_chatHistory = []\<rparr> = Inr standalone"
    and docs: "getRelevantDocuments env q = Inr docs"
    by (rule query_success)
  from assms docs have srcs: "srcs = map toSource docs"
    by (simp add: query_chain_returns [OF init gen])
  show ?thesis
  proof (intro exI [of _ docs] conjI allI impI)
    show "getRelevantDocuments env q = Inr docs" by (rule docs)
    show "length srcs = length docs" by (simp add: srcs)
  next
    fix j assume "j < length docs" "md_get (metadata (docs ! j)) ''chunk'' = JNum 0"
    then show "chunk (srcs ! j) = JNull" by (simp add: srcs toSource_truthy)
  next
    fix j assume "j < length docs" "md_get (metadata (docs ! j)) ''page'' = JNum 0"
    then show "page (srcs ! j) = JNull" by (simp add: srcs toSource_truthy)
  next
    fix j n assume "j < length docs" "n \<noteq> 0" "md_get (metadata (docs ! j)) ''chunk'' = JNum n"
    then show "chunk (srcs ! j) = JNum n" by (simp add: srcs toSource_truthy)
  next
    fix j n assume "j < length docs" "n \<noteq> 0" "md_get (metadata (docs ! j)) ''page'' = JNum n"
    then show "page (srcs ! j) = JNum n" by (simp add: srcs toSource_truthy)
  qed
qed

lemma double_sources:
  "toSource refund_doc = \<lparr>source = JStr ''policy.txt'', page = JNull, chunk = JNull\<rparr>"
  "toSource returns_doc = \<lparr>source = JStr ''policy.pdf'', page = JNum 2, chunk = JNum 3\<rparr>"
  "toSource handbook_doc = \<lparr>source = JStr ''handbook.md'', page = JNull, chunk = JNum 7\<rparr>"
  by (simp_all add: toSource_def md_get_def js_or_def refund_doc_def returns_doc_def
      handbook_doc_def)

theorem C10_witness:
  "qr_sources (snd (snd (query (double (server_answers ''Refunds take 30 days.'')) False
       ''What is the refund policy?'' [])))
     = Some [\<lparr>source = JStr ''policy.txt'', page = JNull, chunk = JNull\<rparr>,
             \<lparr>source = JStr ''policy.pdf'', page = JNum 2, chunk = JNum 3\<rparr>]
   \<and> getRelevantDocuments (double (server_answers ''Refunds take 30 days.''))
         ''What is the refund policy?'' = Inr [refund_doc, returns_doc]
   \<and> md_get (metadata refund_doc) ''chunk'' = JNum 0
   \<and> chunk \<lparr>source = JStr ''policy.txt'', page = JNull, chunk = JNull\<rparr> = JNull
   \<and> md_get (metadata returns_doc) ''chunk'' = JNum 3
   \<and> md_get (metadata returns_doc) ''page'' = JNum 2"
proof -
  let ?srcs = "[\<lparr>source = JStr ''policy.txt'', page = JNull, chunk = JNull\<rparr>,
                \<lparr>source = JStr ''policy.pdf'', page = JNum 2, chunk = JNum 3\<rparr>]"
  have h: "qr_sources (snd (snd (query (double (server_answers ''Refunds take 30 days.'')) False
       ''What is the refund policy?'' []))) = Some ?srcs"
    by (simp add: double_query_answer double_sources)
  have r: "getRelevantDocuments (double (server_answers ''Refunds take 30 days.''))
         ''What is the refund policy?'' = Inr [refund_doc, returns_doc]"
    by (simp add: double_def double_retriever_def)
  from C10_zero_index_reported_null [OF h] r
  have all: "\<forall>j < length [refund_doc, returns_doc].
           (md_get (metadata ([refund_doc, returns_doc] ! j)) ''chunk'' = JNum 0
              \<longrightarrow> chunk (?srcs ! j) = JNull)
         \<and> (md_get (metadata ([refund_doc, returns_doc] ! j)) ''page'' = JNum 0
              \<longrightarrow> page (?srcs ! j) = JNull)
         \<and> (\<forall>n. n \<noteq> 0 \<longrightarrow> md_get (metadata ([refund_doc, returns_doc] ! j)) ''chunk'' = JNum n
                \<longrightarrow> chunk (?srcs ! j) = JNum n)
         \<and> (\<forall>n. n \<noteq> 0 \<longrightarrow> md_get (metadata ([refund_doc, returns_doc] ! j)) ''page'' = JNum n
                \<longrightarrow> page (?srcs ! j) = JNum n)"
    by auto
  have z: "md_get (metadata refund_doc) ''chunk'' = JNum 0"
    by (simp add: md_get_def refund_doc_def)
  from all z have "chunk (?srcs ! 0) = JNull"
    by (metis length_Cons nth_Cons_0 zero_less_Suc)
  moreover have "md_get (metadata returns_doc) ''chunk'' = JNum 3"
    "md_get (metadata returns_doc) ''page'' = JNum 2"
    by (simp_all add: md_get_def returns_doc_def)
  ultimately show ?thesis
    using h r z by simp
qed

text \<open>
  C4, as the code has it. When \<^verbatim>\<open>query\<close> succeeds it has made two retrievals: one
  inside the chain, with the output of the condensation stage, whose documents are the
  context of the prompt, and a second one afterwards with the raw query. The sources
  returned are the documents of the second retrieval, in its order, each with its file name
  and with its page and chunk index when these are truthy; they are the same whatever the
  inference server answers.
\<close>

theorem C4_sources_from_second_retrieval:
  assumes "qr_error (snd (snd (query env initialized q h))) = None"
  shows "\<exists>standalone docs srcs.
      fst (query env initialized q h) =
        [QuestionGeneratorCall
           \<lparr>s1_question = \<lparr>ci_question = q, ci_chatHistory = formattedHistory h\<rparr>,
            s1_chatHistory = []\<rparr>,
         GetRelevantDocumentsCall standalone (getRelevantDocuments env standalone),
         AxiosPostCall (qaTemplate env standalone (retrieveDocuments env standalone)),
         GetRelevantDocumentsCall q (Inr docs)]
    \<and> qr_sources (snd (snd (query env initialized q h))) = Some srcs
    \<and> length srcs = length docs
    \<and> (\<forall>j < length docs.
          source (srcs ! j) = md_get (metadata (docs ! j)) ''source''
        \<and> (truthy (md_get (metadata (docs ! j)) ''page'')
             \<longrightarrow> page (srcs ! j) = md_get (metadata (docs ! j)) ''page'')
        \<and> (truthy (md_get (metadata (docs ! j)) ''chunk'')
             \<longrightarrow> chunk (srcs ! j) = md_get (metadata (docs ! j)) ''chunk''))
    \<and> (\<forall>post. qr_sources (snd (snd (query (env\<lparr>axios_post := post\<rparr>) initialized q h)))
          = Some srcs)"
proof -
  from assms obtain standalone docs where init: "initialized \<or> initialize_throws env = None"
    and gen: "questionGenerator env
       \<lparr>s1_question = \<lparr>ci_question = q, ci_chatHistory = formattedHistory h\<rparr>,
        s1_chatHistory = []\<rparr> = Inr standalone"
    and docs: "getRelevantDocuments env q = Inr docs"
    by (rule query_success)
  have calls: "fst (query env initialized q h) =
        [QuestionGeneratorCall
           \<lparr>s1_question = \<lparr>ci_question = q, ci_chatHistory = formattedHistory h\<rparr>,
            s1_chatHistory = []\<rparr>,
         GetRelevantDocumentsCall standalone (getRelevantDocuments env standalone),
         AxiosPostCall (qaTemplate env standalone (retrieveDocuments env standalone)),
         GetRelevantDocumentsCall q (Inr docs)]"
    by (simp add: query_chain_returns [OF init gen] docs)
  have srcs: "qr_sources (snd (snd (query env initialized q h))) = Some (map toSource docs)"
    by (simp add: query_chain_returns [OF init gen] docs)
  have fields: "\<forall>j < length docs.
          source (map toSource docs ! j) = md_get (metadata (docs ! j)) ''source''
        \<and> (truthy (md_get (metadata (docs ! j)) ''page'')
             \<longrightarrow> page (map toSource docs ! j) = md_get (metadata (docs ! j)) ''page'')
        \<and> (truthy (md_get (metadata (docs ! j)) ''chunk'')
             \<longrightarrow> chunk (map toSource docs ! j) = md_get (metadata (docs ! j)) ''chunk'')"
    by (simp add: toSource_truthy)
  have any_post: "\<forall>post. qr_sources (snd (snd (query (env\<lparr>axios_post := post\<rparr>) initialized q h)))
          = Some (map toSource docs)"
  proof
    fix post
    have init': "initialized \<or> initialize_throws (env\<lparr>axios_post := post\<rparr>) = None"
      using init by simp
    have gen': "questionGenerator (env\<lparr>axios_post := post\<rparr>)
       \<lparr>s1_question = \<lparr>ci_question = q, ci_chatHistory = formattedHistory h\<rparr>,
        s1_chatHistory = []\<rparr> = Inr standalone"
      using gen by simp
    show "qr_sources (snd (snd (query (env\<lparr>axios_post := post\<rparr>) initialized q h)))
          = Some (map toSource docs)"
      by (simp add: query_chain_returns [OF init' gen'] docs)
  qed
  from calls srcs fields any_post show ?thesis
    by (intro exI [of _ standalone] exI [of _ docs] exI [of _ "map toSource docs"]) simp
qed

theorem C4_witness:
  "qr_error (snd (snd (query (double (server_answers ''Refunds take 30 days.'')) False
       ''What is the refund policy?'' []))) = None
   \<and> (\<exists>standalone docs srcs.
        fst (query (double (server_answers ''Refunds take 30 days.'')) False
               ''What is the refund policy?'' []) ! 3
          = GetRelevantDocumentsCall ''What is the refund policy?'' (Inr docs)
      \<and> qr_sources (snd (snd (query (double (server_answers ''Refunds take 30 days.'')) False
             ''What is the refund policy?'' []))) = Some srcs
      \<and> length srcs = length docs
      \<and> qr_sources (snd (snd (query (double connection_refused) False
             ''What is the refund policy?'' []))) = Some srcs)"
proof -
  have ok: "qr_error (snd (snd (query (double (server_answers ''Refunds take 30 days.'')) False
       ''What is the refund policy?'' []))) = None"
    by (simp add: double_query_answer)
  have upd: "(double (server_answers ''Refunds take 30 days.''))\<lparr>axios_post := connection_refused\<rparr>
      = double connection_refused"
    by (simp add: double_def)
  from C4_sources_from_second_retrieval [OF ok] obtain standalone docs srcs where
    c: "fst (query (double (server_answers ''Refunds take 30 days.'')) False
               ''What is the refund policy?'' []) =
        [QuestionGeneratorCall
           \<lparr>s1_question = \<lparr>ci_question = ''What is the refund policy?'',
                            ci_chatHistory = formattedHistory []\<rparr>,
            s1_chatHistory = []\<rparr>,
         GetRelevantDocumentsCall standalone
           (getRelevantDocuments (double (server_answers ''Refunds take 30 days.'')) standalone),
         AxiosPostCall (qaTemplate (double (server_answers ''Refunds take 30 days.'')) standalone
           (retrieveDocuments (double (server_answers ''Refunds take 30 days.'')) standalone)),
         GetRelevantDocumentsCall ''What is the refund policy?'' (Inr docs)]"
    and s: "qr_sources (snd (snd (query (double (server_answers ''Refunds take 30 days.'')) False
             ''What is the refund policy?'' []))) = Some srcs"
    and l: "length srcs = length docs"
    and p: "\<forall>post. qr_sources (snd (snd (query
             ((double (server_answers ''Refunds take 30 days.''))\<lparr>axios_post := post\<rparr>) False
             ''What is the refund policy?'' []))) = Some srcs"
    by blast
  from p upd have "qr_sources (snd (snd (query (double connection_refused) False
             ''What is the refund policy?'' []))) = Some srcs"
    by metis
  with ok c s l show ?thesis
    by (intro conjI exI [of _ standalone] exI [of _ docs] exI [of _ srcs]) simp_all
qed

text \<open>
  The sources are not always the chunks that built the context: with the double, the
  context of the prompt is the handbook chunk, retrieved for the output of the condensation
  stage, and the sources are the two policy chunks, retrieved for the raw query.
\<close>

theorem C4_counterexample:
  "qr_error (snd (snd (query (double (server_answers ''Refunds take 30 days.'')) False
       ''What is the refund policy?'' []))) = None
   \<and> fst (query (double (server_answers ''Refunds take 30 days.'')) False
          ''What is the refund policy?'' []) ! 1
       = GetRelevantDocumentsCall (questionGeneratorTemplate [] ''[object Object]'')
           (Inr [handbook_doc])
   \<and> fst (query (double (server_answers ''Refunds take 30 days.'')) False
          ''What is the refund policy?'' []) ! 2
       = AxiosPostCall (qaTemplate_text (questionGeneratorTemplate [] ''[object Object]'')
           ''Welcome to the staff handbook.'')
   \<and> qr_sources (snd (snd (query (double (server_answers ''Refunds take 30 days.'')) False
          ''What is the refund policy?'' [])))
       = Some [\<lparr>source = JStr ''policy.txt'', page = JNull, chunk = JNull\<rparr>,
               \<lparr>source = JStr ''policy.pdf'', page = JNum 2, chunk = JNum 3\<rparr>]
   \<and> map toSource [handbook_doc]
       = [\<lparr>source = JStr ''handbook.md'', page = JNull, chunk = JNum 7\<rparr>]
   \<and> qr_sources (snd (snd (query (double (server_answers ''Refunds take 30 days.'')) False
          ''What is the refund policy?'' [])))
       \<noteq> Some (map toSource [handbook_doc])"
  by (simp add: double_query_answer double_sources)

text \<open>
  C1, as the code has it. With an empty history \<^verbatim>\<open>query\<close> makes these calls and no
  others: the condensation stage, given the question and the empty formatted history;
  the retrieval for the context, given the output of that stage; one request to the
  inference server, carrying the question-answering prompt built from that output and the
  context; and the retrieval for the sources, given the question as it is. No request to
  the inference server is made for condensation. When the condensation stage throws
  nothing follows it, and when \<^verbatim>\<open>initialize()\<close> throws no call is made.
\<close>

theorem C1_empty_history_calls:
  "fst (query env initialized q []) =
     (if \<not> initialized \<and> initialize_throws env \<noteq> None then []
      else
        case questionGenerator env
               \<lparr>s1_question = \<lparr>ci_question = q, ci_chatHistory = []\<rparr>, s1_chatHistory = []\<rparr> of
          Inl e \<Rightarrow>
            [QuestionGeneratorCall
               \<lparr>s1_question = \<lparr>ci_question = q, ci_chatHistory = []\<rparr>, s1_chatHistory = []\<rparr>]
        | Inr standalone \<Rightarrow>
            [QuestionGeneratorCall
               \<lparr>s1_question = \<lparr>ci_question = q, ci_chatHistory = []\<rparr>, s1_chatHistory = []\<rparr>,
             GetRelevantDocumentsCall standalone (getRelevantDocuments env standalone),
             AxiosPostCall (qaTemplate env standalone (retrieveDocuments env standalone)),
             GetRelevantDocumentsCall q (getRelevantDocuments env q)])"
proof (cases "\<not> initialized \<and> initialize_throws env \<noteq> None")
  case True
  then obtain e where "\<not> initialized" and "initialize_throws env = Some e" by auto
  then have "query env initialized q [] = ([], False, query_catch e)"
    by (rule query_initialize_throws)
  with True show ?thesis by simp
next
  case False
  then have init: "initialized \<or> initialize_throws env = None" by auto
  show ?thesis
  proof (cases "questionGenerator env
      \<lparr>s1_question = \<lparr>ci_question = q, ci_chatHistory = []\<rparr>, s1_chatHistory = []\<rparr>")
    case (Inl e)
    then have "questionGenerator env
        \<lparr>s1_question = \<lparr>ci_question = q, ci_chatHistory = formattedHistory []\<rparr>,
         s1_chatHistory = []\<rparr> = Inl e"
      by (simp add: formattedHistory_empty)
    from query_generator_throws [OF init this] False Inl show ?thesis
      by (simp add: formattedHistory_empty)
  next
    case (Inr standalone)
    then have "questionGenerator env
        \<lparr>s1_question = \<lparr>ci_question = q, ci_chatHistory = formattedHistory []\<rparr>,
         s1_chatHistory = []\<rparr> = Inr standalone"
      by (simp add: formattedHistory_empty)
    from query_chain_returns [OF init this] False Inr show ?thesis
      by (simp add: formattedHistory_empty)
  qed
qed

theorem C1_witness:
  "\<not> (\<not> False \<and> initialize_throws (double (server_answers ''See the handbook.'')) \<noteq> None)
   \<and> fst (query (double (server_answers ''See the handbook.'')) False
          ''Where is the staff handbook?'' []) =
       [QuestionGeneratorCall
          \<lparr>s1_question = \<lparr>ci_question = ''Where is the staff handbook?'', ci_chatHistory = []\<rparr>,
           s1_chatHistory = []\<rparr>,
        GetRelevantDocumentsCall (questionGeneratorTemplate [] ''[object Object]'')
          (Inr [handbook_doc]),
        AxiosPostCall (qaTemplate_text (questionGeneratorTemplate [] ''[object Object]'')
          ''Welcome to the staff handbook.''),
        GetRelevantDocumentsCall ''Where is the staff handbook?'' (Inr [handbook_doc])]"
proof -
  have neq: "questionGeneratorTemplate [] ''[object Object]'' \<noteq> ''What is the refund policy?''"
    by (simp add: questionGeneratorTemplate_def)
  have init: "initialize_throws (double (server_answers ''See the handbook.'')) = None"
    by (simp add: double_def)
  have gen: "questionGenerator (double (server_answers ''See the handbook.''))
      \<lparr>s1_question = \<lparr>ci_question = ''Where is the staff handbook?'', ci_chatHistory = []\<rparr>,
       s1_chatHistory = []\<rparr> = Inr (questionGeneratorTemplate [] ''[object Object]'')"
    by (simp add: double_def double_questionGenerator_def)
  have r1: "getRelevantDocuments (double (server_answers ''See the handbook.''))
      (questionGeneratorTemplate [] ''[object Object]'') = Inr [handbook_doc]"
    using neq by (simp add: double_def double_retriever_def)
  have r2: "getRelevantDocuments (double (server_answers ''See the handbook.''))
      ''Where is the staff handbook?'' = Inr [handbook_doc]"
    by (simp add: double_def double_retriever_def)
  have ctx: "retrieveDocuments (double (server_answers ''See the handbook.''))
      (questionGeneratorTemplate [] ''[object Object]'') = ''Welcome to the staff handbook.''"
    by (simp add: retrieveDocuments_def r1) (simp add: double_def handbook_doc_def)
  have qa: "qaTemplate (double (server_answers ''See the handbook.'')) = qaTemplate_text"
    by (simp add: double_def)
  show ?thesis
    using C1_empty_history_calls [of "double (server_answers ''See the handbook.'')" False
        "''Where is the staff handbook?''"]
    by (simp add: init gen r1 r2 ctx qa)
qed

text \<open>
  With an empty history the condensation stage is still invoked, and the question sent to
  the retrieval of the context and put into the prompt is its output, not the question.
\<close>

theorem C1_counterexample:
  "fst (query (double (server_answers ''Refunds take 30 days.'')) False
       ''What is the refund policy?'' []) ! 0
     = QuestionGeneratorCall
         \<lparr>s1_question = \<lparr>ci_question = ''What is the refund policy?'', ci_chatHistory = []\<rparr>,
          s1_chatHistory = []\<rparr>
   \<and> fst (query (double (server_answers ''Refunds take 30 days.'')) False
          ''What is the refund policy?'' []) ! 1
       = GetRelevantDocumentsCall (questionGeneratorTemplate [] ''[object Object]'')
           (Inr [handbook_doc])
   \<and> take 21 (questionGeneratorTemplate [] ''[object Object]'') = ''Given the following c''
   \<and> questionGeneratorTemplate [] ''[object Object]'' \<noteq> ''What is the refund policy?''"
  by (simp add: double_query_answer formattedHistory_empty) (simp add: questionGeneratorTemplate_def)

lemma apology_not_low_confidence: "\<not> shouldEscalate apology"
proof -
  have "toLowerCase apology = ''i'm sorry, i encountered an error while processing your request.''"
    by (simp add: toLowerCase_def toLowerChar_def apology_def)
  then show ?thesis
    by (simp add: shouldEscalate_lowered)
qed

lemma double_query_refused:
  "query (double connection_refused) False ''What is the refund policy?'' h =
     ([QuestionGeneratorCall
         \<lparr>s1_question = \<lparr>ci_question = ''What is the refund policy?'',
                          ci_chatHistory = formattedHistory h\<rparr>,
          s1_chatHistory = []\<rparr>,
       GetRelevantDocumentsCall (questionGeneratorTemplate [] ''[object Object]'')
         (Inr [handbook_doc]),
       AxiosPostCall (qaTemplate_text (questionGeneratorTemplate [] ''[object Object]'')
          ''Welcome to the staff handbook.''),
       GetRelevantDocumentsCall ''What is the refund policy?'' (Inr [refund_doc, returns_doc])],
      True,
      \<lparr>qr_text = JStr apology, qr_sources = Some [toSource refund_doc, toSource returns_doc],
       qr_error = None, qr_escalate = None\<rparr>)"
proof -
  have neq: "questionGeneratorTemplate [] ''[object Object]'' \<noteq> ''What is the refund policy?''"
    by (simp add: questionGeneratorTemplate_def)
  show ?thesis
    using neq
    by (simp add: query_def chain_invoke_def double_def double_questionGenerator_def
        double_retriever_def retrieveDocuments_def callLlamaServer_def connection_refused_def
        handbook_doc_def Let_def)
qed

text \<open>
  C2 does not hold of the code. When the request to the inference server is refused,
  \<^verbatim>\<open>callLlamaServer\<close> catches the error and returns the canned text as if it were the
  answer, so \<^verbatim>\<open>query\<close> returns that text with the sources and without
  \<^verbatim>\<open>escalate\<close>; the text contains none of the low-confidence phrases, so the flag in
  the response of \<^verbatim>\<open>processMessage\<close> is false as well.
\<close>

theorem C2_refused_request_not_escalated:
  "axios_post (double connection_refused)
      (qaTemplate_text (questionGeneratorTemplate [] ''[object Object]'')
         ''Welcome to the staff handbook.'')
     = Inl \<lparr>err_message = ''connect ECONNREFUSED 127.0.0.1:8080'', err_code = Some ''ECONNREFUSED''\<rparr>
   \<and> snd (snd (query (double connection_refused) False ''What is the refund policy?'' []))
     = \<lparr>qr_text = JStr ''I'm sorry, I encountered an error while processing your request.'',
        qr_sources = Some [\<lparr>source = JStr ''policy.txt'', page = JNull, chunk = JNull\<rparr>,
                           \<lparr>source = JStr ''policy.pdf'', page = JNum 2, chunk = JNum 3\<rparr>],
        qr_error = None, qr_escalate = None\<rparr>
   \<and> resp_escalate (snd (snd (processMessage (double connection_refused) double_runtime
        initial_state ''What is the refund policy?'' None))) = False"
proof -
  have q: "query (double connection_refused) (svc_initialized initial_state)
      ''What is the refund policy?''
      (history_sent double_runtime initial_state ''What is the refund policy?'' None) =
     ([QuestionGeneratorCall
         \<lparr>s1_question = \<lparr>ci_question = ''What is the refund policy?'',
                          ci_chatHistory = formattedHistory
              (history_sent double_runtime initial_state ''What is the refund policy?'' None)\<rparr>,
          s1_chatHistory = []\<rparr>,
       GetRelevantDocumentsCall (questionGeneratorTemplate [] ''[object Object]'')
         (Inr [handbook_doc]),
       AxiosPostCall (qaTemplate_text (questionGeneratorTemplate [] ''[object Object]'')
          ''Welcome to the staff handbook.''),
       GetRelevantDocumentsCall ''What is the refund policy?'' (Inr [refund_doc, returns_doc])],
      True,
      \<lparr>qr_text = JStr apology, qr_sources = Some [toSource refund_doc, toSource returns_doc],
       qr_error = None, qr_escalate = None\<rparr>)"
    by (simp add: initial_state_def double_query_refused)
  have d: "escalation_decision
      \<lparr>qr_text = JStr apology, qr_sources = Some [toSource refund_doc, toSource returns_doc],
       qr_error = None, qr_escalate = None\<rparr> = Inr False"
    by (simp add: escalation_decision_def apology_not_low_confidence)
  have "resp_escalate (snd (snd (processMessage (double connection_refused) double_runtime
        initial_state ''What is the refund policy?'' None))) = False"
    by (simp add: processMessage_ok [OF q d])
  moreover have "snd (snd (query (double connection_refused) False ''What is the refund policy?'' []))
     = \<lparr>qr_text = JStr ''I'm sorry, I encountered an error while processing your request.'',
        qr_sources = Some [\<lparr>source = JStr ''policy.txt'', page = JNull, chunk = JNull\<rparr>,
                           \<lparr>source = JStr ''policy.pdf'', page = JNum 2, chunk = JNum 3\<rparr>],
        qr_error = None, qr_escalate = None\<rparr>"
    by (simp add: double_query_refused double_sources apology_def)
  moreover have "axios_post (double connection_refused)
      (qaTemplate_text (questionGeneratorTemplate [] ''[object Object]'')
         ''Welcome to the staff handbook.'')
     = Inl \<lparr>err_message = ''connect ECONNREFUSED 127.0.0.1:8080'', err_code = Some ''ECONNREFUSED''\<rparr>"
    by (simp add: double_def connection_refused_def)
  ultimately show ?thesis by simp
qed

section \<open>Ingestion\<close>

lemma loaders_None_iff:
  "loaders ext = None \<longleftrightarrow> ext \<notin> {''.pdf'', ''.docx'', ''.txt'', ''.md''}"
  by (simp add: loaders_def)

text \<open>
  C5, as the code has it. For a path whose lowercased extension is none of
  \<^verbatim>\<open>.pdf\<close>, \<^verbatim>\<open>.docx\<close>, \<^verbatim>\<open>.txt\<close>, \<^verbatim>\<open>.md\<close>, the service's
  \<^verbatim>\<open>processFile\<close> throws the error ``Unsupported file type'' with that extension, and
  the script's \<^verbatim>\<open>processFile\<close> returns without a value and without an error; neither
  loads, splits, upserts or writes a manifest file, and the state is as before.
\<close>

theorem C5_unsupported_extension:
  assumes "toLowerCase (extname env filePath) \<notin> {''.pdf'', ''.docx'', ''.txt'', ''.md''}"
  shows "processFile env st filePath =
           ([], st,
            Inl \<lparr>err_message = ''Unsupported file type: '' @ toLowerCase (extname env filePath),
                 err_code = None\<rparr>)
       \<and> script_processFile env st filePath = ([], st, ReturnsUndefined)"
proof -
  from assms have "loaders (toLowerCase (extname env filePath)) = None"
    unfolding loaders_None_iff .
  then show ?thesis
    by (simp add: processFile_def script_processFile_def Let_def)
qed

lemma double_extname_csv: "toLowerCase (double_extname ''/data/raw/notes.csv'') = ''.csv''"
  by (simp add: double_extname_def last_component_def Let_def toLowerCase_def toLowerChar_def)

theorem C5_witness:
  "toLowerCase (extname (ingest_double None) ''/data/raw/notes.csv'')
     \<notin> {''.pdf'', ''.docx'', ''.txt'', ''.md''}
   \<and> processFile (ingest_double None) empty_ingest_state ''/data/raw/notes.csv'' =
       ([], empty_ingest_state,
        Inl \<lparr>err_message = ''Unsupported file type: .csv'', err_code = None\<rparr>)
   \<and> script_processFile (ingest_double None) empty_ingest_state ''/data/raw/notes.csv'' =
       ([], empty_ingest_state, ReturnsUndefined)"
proof -
  have ext: "toLowerCase (extname (ingest_double None) ''/data/raw/notes.csv'') = ''.csv''"
    by (simp add: ingest_double_def double_extname_csv)
  then have h: "toLowerCase (extname (ingest_double None) ''/data/raw/notes.csv'')
     \<notin> {''.pdf'', ''.docx'', ''.txt'', ''.md''}"
    by simp
  from C5_unsupported_extension [OF h, of empty_ingest_state] h ext
  show ?thesis by simp
qed

text \<open>
  The ingestion script does not fail on an unsupported extension: it returns, and what it
  returns is no error.
\<close>

theorem C5_counterexample:
  "toLowerCase (double_extname ''/data/raw/notes.csv'') = ''.csv''
   \<and> snd (snd (script_processFile (ingest_double None) empty_ingest_state ''/data/raw/notes.csv''))
       = ReturnsUndefined"
  by (simp add: double_extname_csv script_processFile_def ingest_double_def loaders_def)

lemma processFile_error_keeps_manifest:
  assumes "snd (snd (processFile env st filePath)) = Inl e"
  shows "processedDir (fst (snd (processFile env st filePath))) = processedDir st"
    and "WriteFileCall name written \<notin> set (fst (processFile env st filePath))"
  using assms
  by (auto simp: processFile_def Let_def split: option.splits sum.splits if_splits)

text \<open>
  C6. When a stage of the service's \<^verbatim>\<open>processFile\<close> fails (the loader, the splitter,
  the construction of the embeddings, or \<^verbatim>\<open>Chroma.fromDocuments\<close>, which embeds and
  upserts), the call fails with the error of that stage; and whenever the call fails, no
  manifest file is written and the directory of processed files is as it was.
\<close>

theorem C6_stage_failure_propagates:
  assumes "loaders (toLowerCase (extname env filePath)) = Some l"
  shows "(loader_load env l filePath = Inl e \<longrightarrow>
            snd (snd (processFile env st filePath)) = Inl e)
       \<and> (loader_load env l filePath = Inr docs \<and> splitDocuments env docs = Inl e \<longrightarrow>
            snd (snd (processFile env st filePath)) = Inl e)
       \<and> (loader_load env l filePath = Inr docs \<and> splitDocuments env docs = Inr splitDocs
            \<and> \<not> embeddingsInstance st \<and> newEmbeddings_throws env = Some e \<longrightarrow>
            snd (snd (processFile env st filePath)) = Inl e)
       \<and> (loader_load env l filePath = Inr docs \<and> splitDocuments env docs = Inr splitDocs
            \<and> (embeddingsInstance st \<or> newEmbeddings_throws env = None)
            \<and> fromDocuments env
                 (processedDocs (basename env filePath) filePath (clock env) splitDocs) = Some e \<longrightarrow>
            snd (snd (processFile env st filePath)) = Inl e)
       \<and> (\<forall>err. snd (snd (processFile env st filePath)) = Inl err \<longrightarrow>
            processedDir (fst (snd (processFile env st filePath))) = processedDir st
            \<and> (\<forall>name written.
                  WriteFileCall name written \<notin> set (fst (processFile env st filePath))))"
proof (intro conjI impI allI)
  assume "loader_load env l filePath = Inl e"
  with assms show "snd (snd (processFile env st filePath)) = Inl e"
    by (simp add: processFile_def Let_def)
next
  assume "loader_load env l filePath = Inr docs \<and> splitDocuments env docs = Inl e"
  with assms show "snd (snd (processFile env st filePath)) = Inl e"
    by (simp add: processFile_def Let_def)
next
  assume "loader_load env l filePath = Inr docs \<and> splitDocuments env docs = Inr splitDocs
            \<and> \<not> embeddingsInstance st \<and> newEmbeddings_throws env = Some e"
  with assms show "snd (snd (processFile env st filePath)) = Inl e"
    by (simp add: processFile_def Let_def)
next
  assume "loader_load env l filePath = Inr docs \<and> splitDocuments env docs = Inr splitDocs
            \<and> (embeddingsInstance st \<or> newEmbeddings_throws env = None)
            \<and> fromDocuments env
                 (processedDocs (basename env filePath) filePath (clock env) splitDocs) = Some e"
  with assms show "snd (snd (processFile env st filePath)) = Inl e"
    by (auto simp: processFile_def Let_def)
next
  fix err
  assume "snd (snd (processFile env st filePath)) = Inl err"
  then show "processedDir (fst (snd (processFile env st filePath))) = processedDir st"
    by (rule processFile_error_keeps_manifest)
next
  fix err name written
  assume "snd (snd (processFile env st filePath)) = Inl err"
  then show "WriteFileCall name written \<notin> set (fst (processFile env st filePath))"
    by (rule processFile_error_keeps_manifest)
qed

lemma double_extname_txt: "toLowerCase (double_extname ''/data/raw/policy.txt'') = ''.txt''"
  by (simp add: double_extname_def last_component_def Let_def toLowerCase_def toLowerChar_def)

lemma double_split_policy: "double_split [policy_loaded] = Inr policy_pieces"
  by (simp add: double_split_def policy_loaded_def policy_pieces_def eval_nat_numeral)

lemma double_load_policy: "double_load l ''/data/raw/policy.txt'' = Inr [policy_loaded]"
  by (simp add: double_load_def policy_loaded_def)

lemma double_last_component_policy: "last_component ''/data/raw/policy.txt'' = ''policy.txt''"
  by (simp add: last_component_def)

lemma double_loader_policy:
  "loaders (toLowerCase (extname (ingest_double r) ''/data/raw/policy.txt'')) = Some TextLoader"
  by (simp add: ingest_double_def double_extname_txt loaders_def)

theorem C6_witness:
  "loaders (toLowerCase (extname (ingest_double (Some upsert_refused)) ''/data/raw/policy.txt''))
     = Some TextLoader
   \<and> loader_load (ingest_double (Some upsert_refused)) TextLoader ''/data/raw/policy.txt''
       = Inr [policy_loaded]
   \<and> splitDocuments (ingest_double (Some upsert_refused)) [policy_loaded] = Inr policy_pieces
   \<and> newEmbeddings_throws (ingest_double (Some upsert_refused)) = None
   \<and> fromDocuments (ingest_double (Some upsert_refused))
         (processedDocs (basename (ingest_double (Some upsert_refused)) ''/data/raw/policy.txt'')
            ''/data/raw/policy.txt'' (clock (ingest_double (Some upsert_refused))) policy_pieces)
       = Some upsert_refused
   \<and> snd (snd (processFile (ingest_double (Some upsert_refused)) empty_ingest_state
         ''/data/raw/policy.txt'')) = Inl upsert_refused
   \<and> processedDir (fst (snd (processFile (ingest_double (Some upsert_refused)) empty_ingest_state
         ''/data/raw/policy.txt''))) = processedDir empty_ingest_state"
proof -
  let ?E = "ingest_double (Some upsert_refused)"
  have l: "loaders (toLowerCase (extname ?E ''/data/raw/policy.txt'')) = Some TextLoader"
    by (rule double_loader_policy)
  have ld: "loader_load ?E TextLoader ''/data/raw/policy.txt'' = Inr [policy_loaded]"
    by (simp add: ingest_double_def double_load_policy)
  have sp: "splitDocuments ?E [policy_loaded] = Inr policy_pieces"
    by (simp add: ingest_double_def double_split_policy)
  have em: "newEmbeddings_throws ?E = None"
    by (simp add: ingest_double_def)
  have up: "fromDocuments ?E
      (processedDocs (basename ?E ''/data/raw/policy.txt'') ''/data/raw/policy.txt''
         (clock ?E) policy_pieces) = Some upsert_refused"
    by (simp add: ingest_double_def)
  from C6_stage_failure_propagates [OF l, where e = upsert_refused and docs = "[policy_loaded]"
      and splitDocs = policy_pieces and st = empty_ingest_state] ld sp em up
  have "snd (snd (processFile ?E empty_ingest_state ''/data/raw/policy.txt'')) = Inl upsert_refused"
    and "processedDir (fst (snd (processFile ?E empty_ingest_state ''/data/raw/policy.txt'')))
      = processedDir empty_ingest_state"
    by blast+
  with l ld sp em up show ?thesis by simp
qed

lemma md_get_update: "md_get (AList.update k v m) k' = (if k' = k then v else md_get m k')"
  by (simp add: md_get_def update_conv')

lemma processedDocs_length [simp]: "length (processedDocs fileName filePath now splitDocs) = length splitDocs"
  by (simp add: processedDocs_def)

lemma script_processedDocs_length [simp]:
  "length (script_processedDocs fileName filePath splitDocs) = length splitDocs"
  by (simp add: script_processedDocs_def)

lemma processedDocs_nth:
  assumes "i < length splitDocs"
  shows "md_get (metadata (processedDocs fileName filePath now splitDocs ! i)) ''chunk'' = JNum (int i)"
    and "pageContent (processedDocs fileName filePath now splitDocs ! i) = pageContent (splitDocs ! i)"
  using assms by (simp_all add: processedDocs_def nth_enumerate_eq md_get_update)

lemma script_processedDocs_nth:
  assumes "i < length splitDocs"
  shows "md_get (metadata (script_processedDocs fileName filePath splitDocs ! i)) ''chunk'' = JNum (int i)"
    and "pageContent (script_processedDocs fileName filePath splitDocs ! i) = pageContent (splitDocs ! i)"
  using assms by (simp_all add: script_processedDocs_def nth_enumerate_eq md_get_update)

lemma processedDocs_chunks:
  "map (\<lambda>d. md_get (metadata d) ''chunk'') (processedDocs fileName filePath now splitDocs)
     = map (\<lambda>i. JNum (int i)) [0..<length splitDocs]"
  "map pageContent (processedDocs fileName filePath now splitDocs) = map pageContent splitDocs"
proof -
  show "map (\<lambda>d. md_get (metadata d) ''chunk'') (processedDocs fileName filePath now splitDocs)
     = map (\<lambda>i. JNum (int i)) [0..<length splitDocs]"
    by (rule nth_equalityI) (simp_all add: processedDocs_nth)
  show "map pageContent (processedDocs fileName filePath now splitDocs) = map pageContent splitDocs"
    by (rule nth_equalityI) (simp_all add: processedDocs_nth)
qed

lemma script_processedDocs_chunks:
  "map (\<lambda>d. md_get (metadata d) ''chunk'') (script_processedDocs fileName filePath splitDocs)
     = map (\<lambda>i. JNum (int i)) [0..<length splitDocs]"
  "map pageContent (script_processedDocs fileName filePath splitDocs) = map pageContent splitDocs"
proof -
  show "map (\<lambda>d. md_get (metadata d) ''chunk'') (script_processedDocs fileName filePath splitDocs)
     = map (\<lambda>i. JNum (int i)) [0..<length splitDocs]"
    by (rule nth_equalityI) (simp_all add: script_processedDocs_nth)
  show "map pageContent (script_processedDocs fileName filePath splitDocs) = map pageContent splitDocs"
    by (rule nth_equalityI) (simp_all add: script_processedDocs_nth)
qed

lemma processFile_upserted:
  assumes "FromDocumentsCall ds \<in> set (fst (processFile env st filePath))"
  shows "\<exists>docs splitDocs. splitDocuments env docs = Inr splitDocs
       \<and> ds = processedDocs (basename env filePath) filePath (clock env) splitDocs"
  using assms
  by (auto simp: processFile_def Let_def split: option.splits sum.splits if_splits)

lemma script_processFile_upserted:
  assumes "FromDocumentsCall ds \<in> set (fst (script_processFile env st filePath))"
  shows "\<exists>docs splitDocs. splitDocuments env docs = Inr splitDocs
       \<and> ds = script_processedDocs (basename env filePath) filePath splitDocs"
  using assms
  by (auto simp: script_processFile_def Let_def split: option.splits sum.splits if_splits)

text \<open>
  C8. The documents that an ingestion of a file hands to \<^verbatim>\<open>Chroma.fromDocuments\<close>, by
  the service or by the script, are the chunks of the splitter in the splitter's order,
  and their \<^verbatim>\<open>chunk\<close> metadata are 0, 1, 2, ... without a gap: the i-th chunk carries
  index i.
\<close>

theorem C8_chunk_indices_contiguous:
  assumes "FromDocumentsCall ds \<in> set (fst (processFile env st filePath))
         \<or> FromDocumentsCall ds \<in> set (fst (script_processFile env st filePath))"
  shows "\<exists>docs splitDocs. splitDocuments env docs = Inr splitDocs
       \<and> map pageContent ds = map pageContent splitDocs
       \<and> map (\<lambda>d. md_get (metadata d) ''chunk'') ds
           = map (\<lambda>i. JNum (int i)) [0..<length splitDocs]"
  using assms
proof
  assume "FromDocumentsCall ds \<in> set (fst (processFile env st filePath))"
  then obtain docs splitDocs where "splitDocuments env docs = Inr splitDocs"
    and "ds = processedDocs (basename env filePath) filePath (clock env) splitDocs"
    using processFile_upserted by blast
  then show ?thesis
    by (intro exI [of _ docs] exI [of _ splitDocs]) (simp add: processedDocs_chunks)
next
  assume "FromDocumentsCall ds \<in> set (fst (script_processFile env st filePath))"
  then obtain docs splitDocs where "splitDocuments env docs = Inr splitDocs"
    and "ds = script_processedDocs (basename env filePath) filePath splitDocs"
    using script_processFile_upserted by blast
  then show ?thesis
    by (intro exI [of _ docs] exI [of _ splitDocs]) (simp add: script_processedDocs_chunks)
qed

lemma double_processFile_effects:
  "fst (processFile (ingest_double None) empty_ingest_state ''/data/raw/policy.txt'') =
     [LoadCall TextLoader ''/data/raw/policy.txt'',
      SplitCall [policy_loaded],
      FromDocumentsCall
        (processedDocs ''policy.txt'' ''/data/raw/policy.txt'' ''2023-11-14T22:13:20.000Z''
           policy_pieces),
      WriteFileCall ''policy.json''
        \<lparr>info_id = Some ''policy.txt'', originalFile = ''/data/raw/policy.txt'',
         filename = Some ''policy.txt'', chunks = 3,
         processedAt = ''2023-11-14T22:13:20.000Z'', filetype = Some ''.txt''\<rparr>]"
proof -
  have ext: "toLowerCase (extname (ingest_double None) ''/data/raw/policy.txt'') = ''.txt''"
    by (simp add: ingest_double_def double_extname_txt)
  have stem: "double_basename_ext ''/data/raw/policy.txt'' ''.txt'' = ''policy''"
    by (simp add: double_basename_ext_def double_last_component_policy suffix_def)
  have len: "length policy_pieces = 3"
    by (simp add: policy_pieces_def)
  have text_loader: "loaders ''.txt'' = Some TextLoader"
    by (simp add: loaders_def)
  have env: "loader_load (ingest_double None) = double_load"
    "splitDocuments (ingest_double None) = double_split"
    "newEmbeddings_throws (ingest_double None) = None"
    "fromDocuments (ingest_double None) = (\<lambda>docs. None)"
    "basename (ingest_double None) = last_component"
    "basename_ext (ingest_double None) = double_basename_ext"
    "clock (ingest_double None) = ''2023-11-14T22:13:20.000Z''"
    by (simp_all add: ingest_double_def)
  show ?thesis
    by (simp add: processFile_def Let_def ext text_loader env double_load_policy double_split_policy
        double_last_component_policy stem len)
qed

theorem C8_witness:
  "FromDocumentsCall
      (processedDocs ''policy.txt'' ''/data/raw/policy.txt'' ''2023-11-14T22:13:20.000Z''
         policy_pieces)
     \<in> set (fst (processFile (ingest_double None) empty_ingest_state ''/data/raw/policy.txt''))
   \<and> map (\<lambda>d. md_get (metadata d) ''chunk'')
         (processedDocs ''policy.txt'' ''/data/raw/policy.txt'' ''2023-11-14T22:13:20.000Z''
            policy_pieces)
       = [JNum 0, JNum 1, JNum 2]
   \<and> map pageContent
         (processedDocs ''policy.txt'' ''/data/raw/policy.txt'' ''2023-11-14T22:13:20.000Z''
            policy_pieces)
       = [''Refunds are '', ''issued withi'', ''n 30 days.'']"
proof -
  let ?ds = "processedDocs ''policy.txt'' ''/data/raw/policy.txt'' ''2023-11-14T22:13:20.000Z''
         policy_pieces"
  have m: "FromDocumentsCall ?ds
     \<in> set (fst (processFile (ingest_double None) empty_ingest_state ''/data/raw/policy.txt''))"
    by (simp add: double_processFile_effects)
  then have "FromDocumentsCall ?ds
       \<in> set (fst (processFile (ingest_double None) empty_ingest_state ''/data/raw/policy.txt''))
     \<or> FromDocumentsCall ?ds
       \<in> set (fst (script_processFile (ingest_double None) empty_ingest_state
                    ''/data/raw/policy.txt''))"
    by (rule disjI1)
  from C8_chunk_indices_contiguous [OF this] obtain docs splitDocs
    where "splitDocuments (ingest_double None) docs = Inr splitDocs"
      and "map pageContent ?ds = map pageContent splitDocs"
      and c: "map (\<lambda>d. md_get (metadata d) ''chunk'') ?ds
           = map (\<lambda>i. JNum (int i)) [0..<length splitDocs]"
    by (elim exE conjE) (rule that; assumption)
  then have "length splitDocs = 3"
    using length_map [of pageContent ?ds] length_map [of pageContent splitDocs]
    by (simp add: policy_pieces_def)
  with c have "map (\<lambda>d. md_get (metadata d) ''chunk'') ?ds = [JNum 0, JNum 1, JNum 2]"
    by (simp add: upt_rec [of 0] upt_rec [of 1] upt_rec [of 2] eval_nat_numeral)
  moreover have "map pageContent ?ds = [''Refunds are '', ''issued withi'', ''n 30 days.'']"
    by (simp add: processedDocs_chunks policy_pieces_def)
  ultimately show ?thesis
    using m by simp
qed

end
